theory Spec2Isabelle
  imports Complex_Main "HOL-Library.Word"
begin

unbundle bit_operations_syntax

section \<open>Data model\<close>

text \<open>
  A shallow embedding of the chase simulation of dictator-battle. A TypeScript
  \<^verbatim>\<open>number\<close> that holds a physical quantity is modelled as a mathematical
  real: the rounding and the overflow of IEEE doubles are not part of the model. Where a
  NaN or an infinity can arise from finite values (a division by zero, a square root of a
  negative number) the operation is modelled as partial, see \<open>js_div\<close> and \<open>js_sqrt\<close>.
  Objects that the source mutates in place are values here; every function returns the
  updated object.

  \<^verbatim>\<open>Vec2\<close> has the fields \<^verbatim>\<open>x\<close> and \<^verbatim>\<open>y\<close>; the selectors are
  called \<open>vx\<close> and \<open>vy\<close> so that they do not capture the variable names.
\<close>

record Vec2 =
  vx :: real
  vy :: real

text \<open>Entity.ts: the base physics entity.\<close>

record Entity =
  pos :: Vec2
  vel :: Vec2
  radius :: real

text \<open>
  Simulation.ts, \<^verbatim>\<open>interface SimEntity { pos; vel; radius; speedMul }\<close>. The
  interactive \<^verbatim>\<open>Dictator\<close> class (an Entity with \<^verbatim>\<open>role\<close>,
  \<^verbatim>\<open>baseSpeed\<close>, \<^verbatim>\<open>speedMul\<close>) has the same four fields and two more.
\<close>

record SimEntity = Entity +
  speedMul :: real

datatype DictatorRole = RoleNone | Hunter | Runner

record Dictator = SimEntity +
  role :: DictatorRole
  baseSpeed :: real

text \<open>
  Simulation.ts, \<^verbatim>\<open>interface SimArena\<close>; Arena.ts computes the same six numbers
  from \<^verbatim>\<open>x\<close>, \<^verbatim>\<open>y\<close> and \<^verbatim>\<open>size\<close> through getters.
\<close>

record SimArena =
  left :: real
  right :: real
  top :: real
  bottom :: real
  centerX :: real
  centerY :: real

text \<open>Game.ts, \<^verbatim>\<open>type GamePhase\<close>.\<close>

datatype GamePhase = idle | prewait | preknife | kniferace | chase | ended

definition Arena :: "real \<Rightarrow> real \<Rightarrow> real \<Rightarrow> SimArena" where
  "Arena ax ay sz =
     \<lparr>left = ax, right = ax + sz, top = ay, bottom = ay + sz,
      centerX = ax + sz / 2, centerY = ay + sz / 2\<rparr>"

section \<open>Operations that can leave the finite numbers\<close>

text \<open>
  On finite doubles a division by zero gives NaN or an infinity and the square root of a
  negative number gives NaN. \<open>js_div\<close> and \<open>js_sqrt\<close> are the two operations with
  that outcome made explicit: \<open>None\<close> stands for a NaN or infinite result. (Overflow of
  a finite intermediate value is an effect of the double format and is not modelled.)
\<close>

definition js_div :: "real \<Rightarrow> real \<Rightarrow> real option" where
  "js_div a b = (if b = 0 then None else Some (a / b))"

definition js_sqrt :: "real \<Rightarrow> real option" where
  "js_sqrt a = (if a < 0 then None else Some (sqrt a))"

section \<open>Entity.ts\<close>

definition speed :: "'a Entity_scheme \<Rightarrow> real" where
  "speed e = sqrt (vx (vel e) * vx (vel e) + vy (vel e) * vy (vel e))"

definition setVelocityAngle :: "'a Entity_scheme \<Rightarrow> real \<Rightarrow> real \<Rightarrow> 'a Entity_scheme" where
  "setVelocityAngle e angle spd = e\<lparr>vel := \<lparr>vx = cos angle * spd, vy = sin angle * spd\<rparr>\<rparr>"

definition normalizeSpeed :: "'a Entity_scheme \<Rightarrow> real \<Rightarrow> 'a Entity_scheme" where
  "normalizeSpeed e targetSpeed =
     (let s = speed e in
      if s < 0.0001 then e
      else e\<lparr>vel := \<lparr>vx = (vx (vel e) / s) * targetSpeed,
                     vy = (vy (vel e) / s) * targetSpeed\<rparr>\<rparr>)"

text \<open>
  \<^verbatim>\<open>normalizeSpeed\<close> once more, statement by statement, with its square root and its
  two divisions taken from the partial operations: the result is \<open>None\<close> as soon as one
  of them would produce a NaN or an infinite component.
\<close>

definition normalizeSpeed_checked :: "'a Entity_scheme \<Rightarrow> real \<Rightarrow> 'a Entity_scheme option" where
  "normalizeSpeed_checked e targetSpeed =
     (case js_sqrt (vx (vel e) * vx (vel e) + vy (vel e) * vy (vel e)) of
        None \<Rightarrow> None
      | Some s \<Rightarrow>
          if s < 0.0001 then Some e
          else
            case js_div (vx (vel e)) s of
              None \<Rightarrow> None
            | Some qx \<Rightarrow>
                case js_div (vy (vel e)) s of
                  None \<Rightarrow> None
                | Some qy \<Rightarrow> Some (e\<lparr>vel := \<lparr>vx = qx * targetSpeed, vy = qy * targetSpeed\<rparr>\<rparr>))"

definition currentSpeed :: "'a Dictator_scheme \<Rightarrow> real" where
  "currentSpeed d = baseSpeed d * speedMul d"

section \<open>Physics.ts\<close>

definition integrateEntity :: "'a Entity_scheme \<Rightarrow> real \<Rightarrow> 'a Entity_scheme" where
  "integrateEntity e dt =
     e\<lparr>pos := \<lparr>vx = vx (pos e) + vx (vel e) * dt, vy = vy (pos e) + vy (vel e) * dt\<rparr>\<rparr>"

definition bounceWallsX :: "'a Entity_scheme \<Rightarrow> SimArena \<Rightarrow> 'a Entity_scheme" where
  "bounceWallsX e arena =
     (let r = radius e in
      if vx (pos e) - r < left arena then
        e\<lparr>pos := (pos e)\<lparr>vx := left arena + r\<rparr>, vel := (vel e)\<lparr>vx := \<bar>vx (vel e)\<bar>\<rparr>\<rparr>
      else if vx (pos e) + r > right arena then
        e\<lparr>pos := (pos e)\<lparr>vx := right arena - r\<rparr>, vel := (vel e)\<lparr>vx := - \<bar>vx (vel e)\<bar>\<rparr>\<rparr>
      else e)"

definition bounceWallsY :: "'a Entity_scheme \<Rightarrow> SimArena \<Rightarrow> 'a Entity_scheme" where
  "bounceWallsY e arena =
     (let r = radius e in
      if vy (pos e) - r < top arena then
        e\<lparr>pos := (pos e)\<lparr>vy := top arena + r\<rparr>, vel := (vel e)\<lparr>vy := \<bar>vy (vel e)\<bar>\<rparr>\<rparr>
      else if vy (pos e) + r > bottom arena then
        e\<lparr>pos := (pos e)\<lparr>vy := bottom arena - r\<rparr>, vel := (vel e)\<lparr>vy := - \<bar>vy (vel e)\<bar>\<rparr>\<rparr>
      else e)"

text \<open>
  \<^verbatim>\<open>bounceWalls\<close>: the first \<^verbatim>\<open>if/else if\<close> handles the x axis, the second
  the y axis, in this order; the radius is read once, before both.
\<close>

definition bounceWalls :: "'a Entity_scheme \<Rightarrow> SimArena \<Rightarrow> 'a Entity_scheme" where
  "bounceWalls e arena = bounceWallsY (bounceWallsX e arena) arena"

definition entityDistance :: "'a Entity_scheme \<Rightarrow> 'b Entity_scheme \<Rightarrow> real" where
  "entityDistance a b =
     (let dx = vx (pos b) - vx (pos a); dy = vy (pos b) - vy (pos a)
      in sqrt (dx * dx + dy * dy))"

definition entitiesOverlap :: "'a Entity_scheme \<Rightarrow> 'b Entity_scheme \<Rightarrow> bool" where
  "entitiesOverlap a b \<longleftrightarrow> entityDistance a b \<le> radius a + radius b"

text \<open>
  \<^verbatim>\<open>bounceEntities(a, b)\<close> mutates both entities and returns whether a collision was
  resolved; the model returns the flag and both entities.
\<close>

definition bounceEntities ::
  "'a Entity_scheme \<Rightarrow> 'b Entity_scheme \<Rightarrow> bool \<times> 'a Entity_scheme \<times> 'b Entity_scheme" where
  "bounceEntities a b =
     (let dx = vx (pos b) - vx (pos a);
          dy = vy (pos b) - vy (pos a);
          dist = sqrt (dx * dx + dy * dy);
          minDist = radius a + radius b
      in if dist \<ge> minDist \<or> dist < 0.0001 then (False, a, b)
         else
           let overlap = minDist - dist;
               nx = dx / dist;
               ny = dy / dist;
               apos = \<lparr>vx = vx (pos a) - nx * overlap * 0.5, vy = vy (pos a) - ny * overlap * 0.5\<rparr>;
               bpos = \<lparr>vx = vx (pos b) + nx * overlap * 0.5, vy = vy (pos b) + ny * overlap * 0.5\<rparr>;
               relVx = vx (vel a) - vx (vel b);
               relVy = vy (vel a) - vy (vel b);
               dot = relVx * nx + relVy * ny
           in if dot > 0 then
                (True,
                 a\<lparr>pos := apos, vel := \<lparr>vx = vx (vel a) - dot * nx, vy = vy (vel a) - dot * ny\<rparr>\<rparr>,
                 b\<lparr>pos := bpos, vel := \<lparr>vx = vx (vel b) + dot * nx, vy = vy (vel b) + dot * ny\<rparr>\<rparr>)
              else (True, a\<lparr>pos := apos\<rparr>, b\<lparr>pos := bpos\<rparr>))"

definition clampToArena :: "'a Entity_scheme \<Rightarrow> SimArena \<Rightarrow> 'a Entity_scheme" where
  "clampToArena e arena =
     (let r = radius e in
      e\<lparr>pos := \<lparr>vx = max (left arena + r) (min (right arena - r) (vx (pos e))),
                vy = max (top arena + r) (min (bottom arena - r) (vy (pos e)))\<rparr>\<rparr>)"

section \<open>Simulation.ts: physics helpers\<close>

text \<open>
  The headless module carries its own copies of the physics helpers, written against
  \<^verbatim>\<open>SimEntity\<close>. They are modelled from Simulation.ts line by line and
  compared with the Physics.ts and Entity.ts versions below.
\<close>

definition integrate :: "'a SimEntity_scheme \<Rightarrow> real \<Rightarrow> 'a SimEntity_scheme" where
  "integrate e dt =
     e\<lparr>pos := \<lparr>vx = vx (pos e) + vx (vel e) * dt, vy = vy (pos e) + vy (vel e) * dt\<rparr>\<rparr>"

definition sim_bounceWalls :: "'a SimEntity_scheme \<Rightarrow> SimArena \<Rightarrow> 'a SimEntity_scheme" where
  "sim_bounceWalls e arena =
     (let r = radius e;
          e1 = (if vx (pos e) - r < left arena then
                  e\<lparr>pos := (pos e)\<lparr>vx := left arena + r\<rparr>, vel := (vel e)\<lparr>vx := \<bar>vx (vel e)\<bar>\<rparr>\<rparr>
                else if vx (pos e) + r > right arena then
                  e\<lparr>pos := (pos e)\<lparr>vx := right arena - r\<rparr>, vel := (vel e)\<lparr>vx := - \<bar>vx (vel e)\<bar>\<rparr>\<rparr>
                else e)
      in if vy (pos e1) - r < top arena then
           e1\<lparr>pos := (pos e1)\<lparr>vy := top arena + r\<rparr>, vel := (vel e1)\<lparr>vy := \<bar>vy (vel e1)\<bar>\<rparr>\<rparr>
         else if vy (pos e1) + r > bottom arena then
           e1\<lparr>pos := (pos e1)\<lparr>vy := bottom arena - r\<rparr>, vel := (vel e1)\<lparr>vy := - \<bar>vy (vel e1)\<bar>\<rparr>\<rparr>
         else e1)"

text \<open>The Simulation.ts copy of \<^verbatim>\<open>bounceEntities\<close> returns nothing.\<close>

definition sim_bounceEntities ::
  "'a SimEntity_scheme \<Rightarrow> 'b SimEntity_scheme \<Rightarrow> 'a SimEntity_scheme \<times> 'b SimEntity_scheme" where
  "sim_bounceEntities a b =
     (let dx = vx (pos b) - vx (pos a);
          dy = vy (pos b) - vy (pos a);
          dist = sqrt (dx * dx + dy * dy);
          minDist = radius a + radius b
      in if dist \<ge> minDist \<or> dist < 0.0001 then (a, b)
         else
           let overlap = minDist - dist;
               nx = dx / dist;
               ny = dy / dist;
               apos = \<lparr>vx = vx (pos a) - nx * overlap * 0.5, vy = vy (pos a) - ny * overlap * 0.5\<rparr>;
               bpos = \<lparr>vx = vx (pos b) + nx * overlap * 0.5, vy = vy (pos b) + ny * overlap * 0.5\<rparr>;
               relVx = vx (vel a) - vx (vel b);
               relVy = vy (vel a) - vy (vel b);
               dot = relVx * nx + relVy * ny
           in if dot > 0 then
                (a\<lparr>pos := apos, vel := \<lparr>vx = vx (vel a) - dot * nx, vy = vy (vel a) - dot * ny\<rparr>\<rparr>,
                 b\<lparr>pos := bpos, vel := \<lparr>vx = vx (vel b) + dot * nx, vy = vy (vel b) + dot * ny\<rparr>\<rparr>)
              else (a\<lparr>pos := apos\<rparr>, b\<lparr>pos := bpos\<rparr>))"

definition dist2D :: "Vec2 \<Rightarrow> Vec2 \<Rightarrow> real" where
  "dist2D a b = sqrt ((vx a - vx b)\<^sup>2 + (vy a - vy b)\<^sup>2)"

definition normSpeed :: "'a SimEntity_scheme \<Rightarrow> real \<Rightarrow> 'a SimEntity_scheme" where
  "normSpeed e spd =
     (let s = sqrt (vx (vel e) * vx (vel e) + vy (vel e) * vy (vel e)) in
      if s < 0.0001 then e
      else e\<lparr>vel := \<lparr>vx = (vx (vel e) / s) * spd, vy = (vy (vel e) / s) * spd\<rparr>\<rparr>)"

text \<open>\<^verbatim>\<open>normSpeed\<close> with the partial operations, as for \<^verbatim>\<open>normalizeSpeed\<close>.\<close>

definition normSpeed_checked :: "'a SimEntity_scheme \<Rightarrow> real \<Rightarrow> 'a SimEntity_scheme option" where
  "normSpeed_checked e spd =
     (case js_sqrt (vx (vel e) * vx (vel e) + vy (vel e) * vy (vel e)) of
        None \<Rightarrow> None
      | Some s \<Rightarrow>
          if s < 0.0001 then Some e
          else
            case js_div (vx (vel e)) s of
              None \<Rightarrow> None
            | Some qx \<Rightarrow>
                case js_div (vy (vel e)) s of
                  None \<Rightarrow> None
                | Some qy \<Rightarrow> Some (e\<lparr>vel := \<lparr>vx = qx * spd, vy = qy * spd\<rparr>\<rparr>))"

section \<open>Rng.ts\<close>

text \<open>
  The generator keeps \<^verbatim>\<open>seed\<close> and \<^verbatim>\<open>state\<close> as numbers. \<^verbatim>\<open>next()\<close>
  first truncates the state to 32 bits (\<^verbatim>\<open>state |= 0\<close>), so all arithmetic is
  on 32-bit words: \<^verbatim>\<open>Math.imul\<close> is the wrapping product, \<^verbatim>\<open>>>>\<close> the
  logical shift, and \<^verbatim>\<open>(... | 0)\<close> stores the signed reading of the word. The
  result is the unsigned reading of the last word divided by \<open>2^32\<close>. The seed is an
  integer here (the constructor's random default for a missing seed is not modelled).
\<close>

record Rng =
  seed :: int
  state :: int

definition Rng_new :: "int \<Rightarrow> Rng" where
  "Rng_new s = \<lparr>seed = s, state = s\<rparr>"

definition Rng_next :: "Rng \<Rightarrow> real \<times> Rng" where
  "Rng_next rng =
     (let s0 = (word_of_int (state rng) :: 32 word);
          s1 = s0 + 0x6d2b79f5;
          t1 = (s1 XOR drop_bit 15 s1) * (1 OR s1);
          t2 = (t1 + (t1 XOR drop_bit 7 t1) * (61 OR t1)) XOR t1
      in (real (unat (t2 XOR drop_bit 14 t2)) / 4294967296, rng\<lparr>state := sint s1\<rparr>))"

definition Rng_range :: "Rng \<Rightarrow> real \<Rightarrow> real \<Rightarrow> real \<times> Rng" where
  "Rng_range rng lo hi = (case Rng_next rng of (r, rng') \<Rightarrow> (lo + r * (hi - lo), rng'))"

definition Rng_int :: "Rng \<Rightarrow> real \<Rightarrow> real \<Rightarrow> int \<times> Rng" where
  "Rng_int rng lo hi = (case Rng_range rng lo (hi + 1) of (r, rng') \<Rightarrow> (\<lfloor>r\<rfloor>, rng'))"

definition Rng_sign :: "Rng \<Rightarrow> int \<times> Rng" where
  "Rng_sign rng = (case Rng_next rng of (r, rng') \<Rightarrow> (if r < 0.5 then - 1 else 1, rng'))"

definition Rng_reset :: "Rng \<Rightarrow> Rng" where
  "Rng_reset rng = rng\<lparr>state := seed rng\<rparr>"

text \<open>
  The 32-bit word \<^verbatim>\<open>next()\<close> starts from (\<^verbatim>\<open>state |= 0\<close>). Every draw adds
  the same constant to it, so it counts the draws made so far.
\<close>

definition Rng_word :: "Rng \<Rightarrow> 32 word" where
  "Rng_word r = word_of_int (state r)"

section \<open>OutcomeController.ts\<close>

record BiasParams =
  knifeAttractionWin :: real
  knifeAttractionLose :: real
  hunterBonusWin :: real
  hunterPenaltyLose :: real
  runnerBonusWin :: real
  runnerPenaltyLose :: real
  speedBonusWin :: real
  speedPenaltyLose :: real

definition DEFAULT_BIAS :: BiasParams where
  "DEFAULT_BIAS =
     \<lparr>knifeAttractionWin = 60, knifeAttractionLose = - 40,
      hunterBonusWin = 0.10, hunterPenaltyLose = - 0.10,
      runnerBonusWin = 0.10, runnerPenaltyLose = - 0.10,
      speedBonusWin = 0.03, speedPenaltyLose = - 0.03\<rparr>"

record OutcomeController =
  winChance :: real
  bias :: BiasParams
  targetWin :: bool

text \<open>The constructor stores its argument as it is; \<^verbatim>\<open>targetWin\<close> starts false.\<close>

definition OutcomeController_new :: "real \<Rightarrow> BiasParams \<Rightarrow> OutcomeController" where
  "OutcomeController_new wc b = \<lparr>winChance = wc, bias = b, targetWin = False\<rparr>"

definition setWinChance :: "OutcomeController \<Rightarrow> real \<Rightarrow> OutcomeController" where
  "setWinChance oc p = oc\<lparr>winChance := max 0 (min 1 p)\<rparr>"

text \<open>\<^verbatim>\<open>sampleOutcome\<close> draws once; the debug log is not modelled.\<close>

definition sampleOutcome :: "OutcomeController \<Rightarrow> Rng \<Rightarrow> OutcomeController \<times> Rng" where
  "sampleOutcome oc rng =
     (case Rng_next rng of (r, rng') \<Rightarrow> (oc\<lparr>targetWin := r < winChance oc\<rparr>, rng'))"

definition knifeAttractionStrength :: "OutcomeController \<Rightarrow> real" where
  "knifeAttractionStrength oc =
     (if targetWin oc then knifeAttractionWin (bias oc) else knifeAttractionLose (bias oc))"

definition steeringMultiplier :: "OutcomeController \<Rightarrow> bool \<Rightarrow> real" where
  "steeringMultiplier oc isHunter =
     (if isHunter then
        1.0 + (if targetWin oc then hunterBonusWin (bias oc) else hunterPenaltyLose (bias oc))
      else
        1.0 + (if targetWin oc then runnerBonusWin (bias oc) else runnerPenaltyLose (bias oc)))"

definition speedMultiplier :: "OutcomeController \<Rightarrow> real" where
  "speedMultiplier oc =
     1.0 + (if targetWin oc then speedBonusWin (bias oc) else speedPenaltyLose (bias oc))"

section \<open>Ai.ts\<close>

definition MAX_WANDER_IMPULSE :: real where "MAX_WANDER_IMPULSE = 80"
definition MAX_HUNT_IMPULSE :: real where "MAX_HUNT_IMPULSE = 200"
definition MAX_EVADE_IMPULSE :: real where "MAX_EVADE_IMPULSE = 200"
definition MAX_KNIFE_SEEK_IMPULSE :: real where "MAX_KNIFE_SEEK_IMPULSE = 200"
definition TURN_RATE_CAP :: real where "TURN_RATE_CAP = 3.0"

text \<open>
  \<^verbatim>\<open>applyImpulse\<close> first adds the scaled impulse to the velocity
  (\<open>addScaledImpulse\<close> is the entity at that point), then measures speed and direction
  of the new velocity and limits the turn.
\<close>

definition addScaledImpulse ::
  "'a Entity_scheme \<Rightarrow> real \<Rightarrow> real \<Rightarrow> real \<Rightarrow> real \<Rightarrow> 'a Entity_scheme" where
  "addScaledImpulse entity ix iy dt impulseMul =
     entity\<lparr>vel := \<lparr>vx = vx (vel entity) + ix * impulseMul * dt,
                     vy = vy (vel entity) + iy * impulseMul * dt\<rparr>\<rparr>"

definition applyImpulse ::
  "'a Entity_scheme \<Rightarrow> real \<Rightarrow> real \<Rightarrow> real \<Rightarrow> real \<Rightarrow> 'a Entity_scheme" where
  "applyImpulse entity ix iy dt impulseMul =
     (let scaledX = ix * impulseMul * dt;
          scaledY = iy * impulseMul * dt;
          e1 = addScaledImpulse entity ix iy dt impulseMul;
          spd = speed e1
      in if spd > 0.001 then
           let maxDelta = spd * tan (TURN_RATE_CAP * dt);
               nx = vx (vel e1) / spd;
               ny = vy (vel e1) / spd;
               addedVelX = scaledX;
               addedVelY = scaledY;
               perpComp = addedVelX * (- ny) + addedVelY * nx
           in if \<bar>perpComp\<bar> > maxDelta then
                let clamp = maxDelta * sgn perpComp;
                    factor = clamp / perpComp
                in e1\<lparr>vel := \<lparr>vx = vx (vel e1) - scaledX + scaledX * factor,
                                vy = vy (vel e1) - scaledY + scaledY * factor\<rparr>\<rparr>
              else e1
         else e1)"

definition applyWanderSteering ::
  "'a Entity_scheme \<Rightarrow> Rng \<Rightarrow> real \<Rightarrow> real \<Rightarrow> 'a Entity_scheme \<times> Rng" where
  "applyWanderSteering entity rng dt impulseMul =
     (case Rng_range rng 0 (pi * 2) of (angle, rng1) \<Rightarrow>
      case Rng_range rng1 0 MAX_WANDER_IMPULSE of (m, rng2) \<Rightarrow>
        let magnitude = m * impulseMul;
            ix = cos angle * magnitude;
            iy = sin angle * magnitude
        in (applyImpulse entity ix iy dt 1, rng2))"

definition applyKnifeSeekSteering ::
  "'a Entity_scheme \<Rightarrow> real \<Rightarrow> real \<Rightarrow> real \<Rightarrow> real \<Rightarrow> 'a Entity_scheme" where
  "applyKnifeSeekSteering entity knifeX knifeY dt biasDelta =
     (let dx = knifeX - vx (pos entity);
          dy = knifeY - vy (pos entity);
          dist = sqrt (dx * dx + dy * dy)
      in if dist < 0.001 then entity
         else
           let nx = dx / dist;
               ny = dy / dist;
               strength = MAX_KNIFE_SEEK_IMPULSE + biasDelta
           in applyImpulse entity (nx * strength) (ny * strength) dt 1)"

definition applyCenterAttraction ::
  "'a Entity_scheme \<Rightarrow> real \<Rightarrow> real \<Rightarrow> real \<Rightarrow> real \<Rightarrow> 'a Entity_scheme" where
  "applyCenterAttraction entity cX cY dt strength =
     (let dx = cX - vx (pos entity);
          dy = cY - vy (pos entity);
          dist = sqrt (dx * dx + dy * dy)
      in if dist < 0.001 then entity
         else
           let ix = (dx / dist) * strength;
               iy = (dy / dist) * strength
           in applyImpulse entity ix iy dt 1)"

definition applyHunterSteering ::
  "'a Entity_scheme \<Rightarrow> 'b Entity_scheme \<Rightarrow> real \<Rightarrow> real \<Rightarrow> 'a Entity_scheme" where
  "applyHunterSteering hunter target dt impulseMul =
     (let dx = vx (pos target) - vx (pos hunter);
          dy = vy (pos target) - vy (pos hunter);
          dist = sqrt (dx * dx + dy * dy)
      in if dist < 0.001 then hunter
         else
           let nx = dx / dist;
               ny = dy / dist
           in applyImpulse hunter (nx * MAX_HUNT_IMPULSE) (ny * MAX_HUNT_IMPULSE) dt impulseMul)"

text \<open>
  \<^verbatim>\<open>applyRunnerSteering\<close> draws its jitter only after the distance guard: a runner
  on top of its pursuer consumes no random number.
\<close>

definition applyRunnerSteering ::
  "'a Entity_scheme \<Rightarrow> 'b Entity_scheme \<Rightarrow> Rng \<Rightarrow> real \<Rightarrow> real \<Rightarrow> 'a Entity_scheme \<times> Rng" where
  "applyRunnerSteering runner pursuer rng dt impulseMul =
     (let dx = vx (pos runner) - vx (pos pursuer);
          dy = vy (pos runner) - vy (pos pursuer);
          dist = sqrt (dx * dx + dy * dy)
      in if dist < 0.001 then (runner, rng)
         else
           let nx = dx / dist;
               ny = dy / dist
           in case Rng_range rng (- 0.4) 0.4 of (perp, rng') \<Rightarrow>
                let evadeX = nx + (- ny) * perp;
                    evadeY = ny + nx * perp
                in (applyImpulse runner (evadeX * MAX_EVADE_IMPULSE) (evadeY * MAX_EVADE_IMPULSE)
                      dt impulseMul, rng'))"

section \<open>Simulation.ts: constants and steering helpers\<close>

definition BASE_SPEED :: real where "BASE_SPEED = 120"
definition CHASE_SPEED_MUL :: real where "CHASE_SPEED_MUL = 2.0"
definition PREWAIT_DURATION :: real where "PREWAIT_DURATION = 1.0"
definition PREKNIFE_DURATION :: real where "PREKNIFE_DURATION = 3.0"
definition CHASE_DURATION :: real where "CHASE_DURATION = 10.0"
definition BALL_RADIUS :: real where "BALL_RADIUS = 28"
definition KNIFE_RADIUS :: real where "KNIFE_RADIUS = 20"
definition FIXED_DT :: real where "FIXED_DT = 1 / 60"
definition ARENA_SIZE :: real where "ARENA_SIZE = 520"

definition wanderImpulse ::
  "'a SimEntity_scheme \<Rightarrow> Rng \<Rightarrow> real \<Rightarrow> real \<Rightarrow> 'a SimEntity_scheme \<times> Rng" where
  "wanderImpulse e rng dt mul =
     (case Rng_range rng 0 (pi * 2) of (a, rng1) \<Rightarrow>
      case Rng_range rng1 0 80 of (m, rng2) \<Rightarrow>
        let mag = m * mul
        in (e\<lparr>vel := \<lparr>vx = vx (vel e) + cos a * mag * dt,
                       vy = vy (vel e) + sin a * mag * dt\<rparr>\<rparr>, rng2))"

definition hunterImpulse ::
  "'a SimEntity_scheme \<Rightarrow> 'b SimEntity_scheme \<Rightarrow> real \<Rightarrow> real \<Rightarrow> 'a SimEntity_scheme" where
  "hunterImpulse hunter target dt mul =
     (let dx = vx (pos target) - vx (pos hunter);
          dy = vy (pos target) - vy (pos hunter);
          d = sqrt (dx * dx + dy * dy)
      in if d < 0.001 then hunter
         else hunter\<lparr>vel := \<lparr>vx = vx (vel hunter) + (dx / d) * 200 * mul * dt,
                              vy = vy (vel hunter) + (dy / d) * 200 * mul * dt\<rparr>\<rparr>)"

definition runnerImpulse ::
  "'a SimEntity_scheme \<Rightarrow> 'b SimEntity_scheme \<Rightarrow> Rng \<Rightarrow> real \<Rightarrow> real
     \<Rightarrow> 'a SimEntity_scheme \<times> Rng" where
  "runnerImpulse runner pursuer rng dt mul =
     (let dx = vx (pos runner) - vx (pos pursuer);
          dy = vy (pos runner) - vy (pos pursuer);
          d = sqrt (dx * dx + dy * dy)
      in if d < 0.001 then (runner, rng)
         else
           case Rng_range rng (- 0.4) 0.4 of (perp, rng') \<Rightarrow>
             let ex = dx / d + (- dy / d) * perp;
                 ey = dy / d + (dx / d) * perp
             in (runner\<lparr>vel := \<lparr>vx = vx (vel runner) + ex * 200 * mul * dt,
                                 vy = vy (vel runner) + ey * 200 * mul * dt\<rparr>\<rparr>, rng'))"

definition centerAttract ::
  "'a SimEntity_scheme \<Rightarrow> real \<Rightarrow> real \<Rightarrow> real \<Rightarrow> real \<Rightarrow> 'a SimEntity_scheme" where
  "centerAttract e cx cy dt strength =
     (let dx = cx - vx (pos e);
          dy = cy - vy (pos e);
          d = sqrt (dx * dx + dy * dy)
      in if d < 0.001 then e
         else e\<lparr>vel := \<lparr>vx = vx (vel e) + (dx / d) * strength * dt,
                        vy = vy (vel e) + (dy / d) * strength * dt\<rparr>\<rparr>)"

section \<open>Simulation.ts: one round\<close>

text \<open>
  The local variables of \<^verbatim>\<open>simulateRound\<close> that the loop reads or writes. The
  source also declares \<^verbatim>\<open>phaseTimer\<close> and \<^verbatim>\<open>preknifeDone\<close>, which are
  never used. The controller and the arena are only read inside the loop.
\<close>

record SimRound =
  ePlayer :: SimEntity
  eOpponent :: SimEntity
  rng :: Rng
  knifePickedUp :: bool
  playerIsHunter :: bool
  chaseTimer :: real
  knifeSpawned :: bool
  prewaitDone :: bool
  prewaitTimer :: real
  preknifeDone2Timer :: real

definition pickupRadius :: real where
  "pickupRadius = BALL_RADIUS + KNIFE_RADIUS"

text \<open>
  In real arithmetic the bound is \<open>19 \<times> 60 = 1140\<close> ticks.
\<close>

definition MAX_TICKS :: nat where
  "MAX_TICKS = nat \<lceil>(PREWAIT_DURATION + PREKNIFE_DURATION + CHASE_DURATION + 5) / FIXED_DT\<rceil>"

text \<open>
  Lines 121 to 155: sample the outcome, place the two bodies, draw the two start angles.
  The controller object is mutated by \<^verbatim>\<open>sampleOutcome\<close>; it is returned with the
  start state.
\<close>

definition simulateRound_init ::
  "Rng \<Rightarrow> OutcomeController \<Rightarrow> SimArena \<Rightarrow> OutcomeController \<times> SimRound" where
  "simulateRound_init rng0 outcome0 arena =
     (case sampleOutcome outcome0 rng0 of (outcome, rng1) \<Rightarrow>
      let cx = centerX arena;
          cy = centerY arena;
          sep = BALL_RADIUS * 3
      in case Rng_range rng1 0 (pi * 2) of (a1, rng2) \<Rightarrow>
         case Rng_range rng2 (- 0.5) 0.5 of (j, rng3) \<Rightarrow>
           let a2 = a1 + pi + j
           in (outcome,
               \<lparr>ePlayer = \<lparr>pos = \<lparr>vx = cx - sep, vy = cy\<rparr>,
                            vel = \<lparr>vx = cos a1 * BASE_SPEED, vy = sin a1 * BASE_SPEED\<rparr>,
                            radius = BALL_RADIUS, speedMul = speedMultiplier outcome\<rparr>,
                eOpponent = \<lparr>pos = \<lparr>vx = cx + sep, vy = cy\<rparr>,
                              vel = \<lparr>vx = cos a2 * BASE_SPEED, vy = sin a2 * BASE_SPEED\<rparr>,
                              radius = BALL_RADIUS, speedMul = 1.0\<rparr>,
                rng = rng3,
                knifePickedUp = False,
                playerIsHunter = False,
                chaseTimer = CHASE_DURATION,
                knifeSpawned = False,
                prewaitDone = False,
                prewaitTimer = PREWAIT_DURATION,
                preknifeDone2Timer = PREKNIFE_DURATION\<rparr>))"

text \<open>
  Lines 162 to 214, the \<^verbatim>\<open>if / else if\<close> chain on the phase flags. \<open>Inl r\<close> is
  \<^verbatim>\<open>return r\<close>; \<open>Inr st\<close> is falling through to the movement code.
\<close>

definition sim_steer :: "OutcomeController \<Rightarrow> SimArena \<Rightarrow> SimRound \<Rightarrow> bool + SimRound" where
  "sim_steer outcome arena st =
     (let dt = FIXED_DT; cx = centerX arena; cy = centerY arena in
      if \<not> prewaitDone st then
        (let t = prewaitTimer st - dt in
         case wanderImpulse (ePlayer st) (rng st) dt 0.5 of (p, r1) \<Rightarrow>
         case wanderImpulse (eOpponent st) r1 dt 0.5 of (opp, r2) \<Rightarrow>
           Inr (st\<lparr>prewaitTimer := t, ePlayer := p, eOpponent := opp, rng := r2,
                   prewaitDone := (t \<le> 0)\<rparr>))
      else if \<not> knifeSpawned st then
        (let t = preknifeDone2Timer st - dt in
         case wanderImpulse (ePlayer st) (rng st) dt 1.0 of (p, r1) \<Rightarrow>
         case wanderImpulse (eOpponent st) r1 dt 1.0 of (opp, r2) \<Rightarrow>
           Inr (st\<lparr>preknifeDone2Timer := t, ePlayer := p, eOpponent := opp, rng := r2,
                   knifeSpawned := (t \<le> 0)\<rparr>))
      else if \<not> knifePickedUp st then
        (let knifeAttr = knifeAttractionStrength outcome;
             p0 = centerAttract (ePlayer st) cx cy dt knifeAttr in
         case wanderImpulse p0 (rng st) dt 0.8 of (p, r1) \<Rightarrow>
         case wanderImpulse (eOpponent st) r1 dt 0.8 of (opp, r2) \<Rightarrow>
           let dpA = dist2D (pos p) \<lparr>vx = cx, vy = cy\<rparr>;
               dpB = dist2D (pos opp) \<lparr>vx = cx, vy = cy\<rparr>
           in if dpA \<le> pickupRadius \<or> dpB \<le> pickupRadius then
                let chaseSpeed = BASE_SPEED * CHASE_SPEED_MUL;
                    p1 = p\<lparr>speedMul := speedMultiplier outcome\<rparr>;
                    p2 = normSpeed p1 (chaseSpeed * speedMul p1);
                    opp2 = normSpeed opp chaseSpeed
                in Inr (st\<lparr>ePlayer := p2, eOpponent := opp2, rng := r2,
                           knifePickedUp := True, playerIsHunter := (dpA < dpB)\<rparr>)
              else Inr (st\<lparr>ePlayer := p, eOpponent := opp, rng := r2\<rparr>))
      else
        (let ct = chaseTimer st - dt;
             isPlayerHunter = playerIsHunter st;
             playerSteerMul = steeringMultiplier outcome isPlayerHunter;
             hunter = (if isPlayerHunter then ePlayer st else eOpponent st);
             runner = (if isPlayerHunter then eOpponent st else ePlayer st);
             hunterMul = (if isPlayerHunter then playerSteerMul else 1.0);
             runnerMul = (if \<not> isPlayerHunter then playerSteerMul else 1.0);
             hunter1 = hunterImpulse hunter runner dt hunterMul
         in case runnerImpulse runner hunter1 (rng st) dt runnerMul of (runner1, r1) \<Rightarrow>
              let hunter2 = normSpeed hunter1 (BASE_SPEED * CHASE_SPEED_MUL * speedMul hunter1);
                  runner2 = normSpeed runner1 (BASE_SPEED * CHASE_SPEED_MUL * speedMul runner1);
                  d = dist2D (pos hunter2) (pos runner2)
              in if d \<le> radius hunter2 + radius runner2 then Inl (playerIsHunter st)
                 else if ct \<le> 0 then Inl (\<not> playerIsHunter st)
                 else Inr (st\<lparr>chaseTimer := ct,
                             ePlayer := (if isPlayerHunter then hunter2 else runner2),
                             eOpponent := (if isPlayerHunter then runner2 else hunter2),
                             rng := r1\<rparr>)))"

text \<open>
  Lines 217 and 218: in every phase, both bodies are normalised to the base speed just
  before they are integrated. \<open>sim_renorm\<close> is the state at the moment of integration.
\<close>

definition sim_renorm :: "SimRound \<Rightarrow> SimRound" where
  "sim_renorm st =
     st\<lparr>ePlayer := normSpeed (ePlayer st) (BASE_SPEED * speedMul (ePlayer st)),
        eOpponent := normSpeed (eOpponent st) BASE_SPEED\<rparr>"

text \<open>Lines 219 to 223: integrate, bounce off the walls, resolve the collision.\<close>

definition sim_integrate_bounce :: "SimArena \<Rightarrow> SimRound \<Rightarrow> SimRound" where
  "sim_integrate_bounce arena st =
     (let dt = FIXED_DT;
          p = sim_bounceWalls (integrate (ePlayer st) dt) arena;
          opp = sim_bounceWalls (integrate (eOpponent st) dt) arena
      in case sim_bounceEntities p opp of (p', opp') \<Rightarrow> st\<lparr>ePlayer := p', eOpponent := opp'\<rparr>)"

definition sim_tick :: "OutcomeController \<Rightarrow> SimArena \<Rightarrow> SimRound \<Rightarrow> bool + SimRound" where
  "sim_tick outcome arena st =
     (case sim_steer outcome arena st of
        Inl r \<Rightarrow> Inl r
      | Inr st' \<Rightarrow> Inr (sim_integrate_bounce arena (sim_renorm st')))"

text \<open>
  The \<^verbatim>\<open>for\<close> loop, by recursion on the number of ticks that remain. It returns the
  boolean result together with the states after every completed tick (the trajectory);
  when the ticks run out the fallback \<^verbatim>\<open>!playerIsHunter\<close> is returned.
\<close>

fun sim_loop ::
  "nat \<Rightarrow> OutcomeController \<Rightarrow> SimArena \<Rightarrow> SimRound \<Rightarrow> bool \<times> SimRound list" where
  "sim_loop 0 outcome arena st = (\<not> playerIsHunter st, [])"
| "sim_loop (Suc n) outcome arena st =
     (case sim_tick outcome arena st of
        Inl r \<Rightarrow> (r, [])
      | Inr st' \<Rightarrow> (case sim_loop n outcome arena st' of (r, tr) \<Rightarrow> (r, st' # tr)))"

definition simulateRound_trace ::
  "Rng \<Rightarrow> OutcomeController \<Rightarrow> SimArena \<Rightarrow> bool \<times> SimRound list" where
  "simulateRound_trace rng0 outcome0 arena =
     (case simulateRound_init rng0 outcome0 arena of
        (outcome, st0) \<Rightarrow> sim_loop MAX_TICKS outcome arena st0)"

definition simulateRound :: "Rng \<Rightarrow> OutcomeController \<Rightarrow> SimArena \<Rightarrow> bool" where
  "simulateRound rng0 outcome0 arena = fst (simulateRound_trace rng0 outcome0 arena)"

text \<open>
  The phase a state of the headless loop is in, read from its flags (the loop has no phase
  variable; \<open>sim_phase\<close> is only used to compare the two paths).
\<close>

definition sim_phase :: "SimRound \<Rightarrow> GamePhase" where
  "sim_phase st =
     (if \<not> prewaitDone st then prewait
      else if \<not> knifeSpawned st then preknife
      else if \<not> knifePickedUp st then kniferace
      else chase)"

section \<open>Simulation.ts: the batch runner\<close>

record SimulationResult =
  rounds :: nat
  wins :: nat
  losses :: int
  observedWinRate :: "real option"
  totalBet :: real
  totalPayout :: real
  rtp :: "real option"
  configuredWinChance :: real
  expectedRtp :: real

definition PAYOUT_MUL :: real where "PAYOUT_MUL = 1.9"

text \<open>
  The loop of \<^verbatim>\<open>runSimulation\<close> over the round index \<open>i\<close>, from \<open>i\<close> up to
  \<open>i + n\<close>: one fresh generator per round, one controller object shared by all rounds
  (each round's \<^verbatim>\<open>sampleOutcome\<close> overwrites its \<^verbatim>\<open>targetWin\<close>).
\<close>

fun runSimulation_loop ::
  "nat \<Rightarrow> nat \<Rightarrow> int \<Rightarrow> real \<Rightarrow> SimArena \<Rightarrow> OutcomeController \<Rightarrow> nat \<times> real \<Rightarrow> nat \<times> real" where
  "runSimulation_loop 0 i baseSeed betAmount arena outcome (w, payout) = (w, payout)"
| "runSimulation_loop (Suc n) i baseSeed betAmount arena outcome (w, payout) =
     (let rng0 = Rng_new (baseSeed + int i);
          outcome' = fst (simulateRound_init rng0 outcome arena);
          won = simulateRound rng0 outcome arena
      in runSimulation_loop n (Suc i) baseSeed betAmount arena outcome'
           (if won then (w + 1, payout + betAmount * PAYOUT_MUL) else (w, payout)))"

text \<open>
  The two quotients of the result are partial: with \<open>rounds = 0\<close> the observed win rate
  is \<open>0 / 0\<close>, and with \<open>rounds = 0\<close> or \<open>betAmount = 0\<close> the RTP is \<open>0 / 0\<close>, which
  is NaN in the source and \<open>None\<close> here.
\<close>

definition runSimulation :: "nat \<Rightarrow> real \<Rightarrow> real \<Rightarrow> int \<Rightarrow> SimulationResult" where
  "runSimulation n winCh betAmount baseSeed =
     (let arena = \<lparr>left = 0, right = ARENA_SIZE, top = 0, bottom = ARENA_SIZE,
                   centerX = ARENA_SIZE / 2, centerY = ARENA_SIZE / 2\<rparr>;
          outcome = OutcomeController_new winCh DEFAULT_BIAS
      in case runSimulation_loop n 0 baseSeed betAmount arena outcome (0, 0) of
           (w, payout) \<Rightarrow>
             let tb = real n * betAmount
             in \<lparr>rounds = n, wins = w, losses = int n - int w,
                 observedWinRate = js_div (real w) (real n),
                 totalBet = tb, totalPayout = payout, rtp = js_div payout tb,
                 configuredWinChance = winCh, expectedRtp = PAYOUT_MUL * winCh\<rparr>)"

section \<open>Game.ts: the interactive round\<close>

text \<open>
  The constants of Game.ts. Simulation.ts says of its own list \<^verbatim>\<open>Constants (must
  match Game.ts)\<close>; the two lists are kept apart here because they do not agree.
\<close>

definition Game_ARENA_PADDING :: real where "Game_ARENA_PADDING = 20"
definition Game_BALL_RADIUS :: real where "Game_BALL_RADIUS = 28"
definition Game_BASE_SPEED :: real where "Game_BASE_SPEED = 120"
definition Game_CHASE_SPEED_MUL :: real where "Game_CHASE_SPEED_MUL = 2.0"
definition Game_PREWAIT_DURATION :: real where "Game_PREWAIT_DURATION = 1.0"
definition Game_PREKNIFE_DURATION :: real where "Game_PREKNIFE_DURATION = 1.5"
definition Game_CHASE_DURATION :: real where "Game_CHASE_DURATION = 10.0"
definition Game_FIXED_DT :: real where "Game_FIXED_DT = 1 / 60"

text \<open>Knife.ts without its display objects; \<open>visible\<close> is the container's flag.\<close>

record Knife =
  knife_pos :: Vec2
  knife_radius :: real
  pickedUp :: bool
  visible :: bool

definition Knife_new :: "real \<Rightarrow> real \<Rightarrow> Knife" where
  "Knife_new kx ky = \<lparr>knife_pos = \<lparr>vx = kx, vy = ky\<rparr>, knife_radius = 20, pickedUp = False, visible = True\<rparr>"

text \<open>
  The fields of \<^verbatim>\<open>Game\<close> that the round logic reads or writes. \<open>g_dictators\<close>
  is the pair \<^verbatim>\<open>[dPlayer, dOpponent]\<close>; \<open>g_balance\<close> and \<open>g_lastBet\<close> are the
  Economy object (Economy.ts); \<open>g_playerWon\<close> records the argument of
  \<^verbatim>\<open>_endRound\<close>, which is what the UI and the ledger receive. Pixi display objects
  and the UI are not modelled.
\<close>

record Game =
  g_arena :: SimArena
  g_dictators :: "Dictator \<times> Dictator"
  g_knife :: "Knife option"
  g_rng :: Rng
  g_outcome :: OutcomeController
  g_phase :: GamePhase
  g_phaseTimer :: real
  g_accumulator :: real
  g_knifePickedUp :: bool
  g_playerDictId :: string
  g_balance :: real
  g_lastBet :: real
  g_playerWon :: "bool option"

definition DICTATOR_CONFIGS :: "string list" where
  "DICTATOR_CONFIGS = [''arafat'', ''hussein'', ''gaddafi'', ''lukashenko'']"

text \<open>\<^verbatim>\<open>new Dictator(config, radius, isPlayer)\<close>: at the origin, at rest, no role.\<close>

definition Dictator_new :: "real \<Rightarrow> Dictator" where
  "Dictator_new r =
     \<lparr>pos = \<lparr>vx = 0, vy = 0\<rparr>, vel = \<lparr>vx = 0, vy = 0\<rparr>, radius = r,
      speedMul = 1.0, role = RoleNone, baseSpeed = 120\<rparr>"

definition buildArena :: "real \<Rightarrow> real \<Rightarrow> SimArena" where
  "buildArena screenW screenH =
     (let sz = min screenW screenH - Game_ARENA_PADDING * 2;
          ox = (screenW - sz) / 2;
          oy = (screenH - sz) / 2
      in Arena ox oy sz)"

definition cleanupKnife :: "Game \<Rightarrow> Game" where
  "cleanupKnife g =
     g\<lparr>g_knife := map_option (\<lambda>k. k\<lparr>visible := False, pickedUp := False\<rparr>) (g_knife g),
       g_knifePickedUp := False\<rparr>"

text \<open>
  \<^verbatim>\<open>_pickOpponent\<close> draws one integer in \<open>[0, others.length - 1]\<close>; the draw
  advances the generator before the start angles are drawn.
\<close>

definition pickOpponent :: "Rng \<Rightarrow> string \<Rightarrow> string \<times> Rng" where
  "pickOpponent r playerId =
     (let others = filter (\<lambda>d. d \<noteq> playerId) DICTATOR_CONFIGS
      in case Rng_int r 0 (real (length others) - 1) of (i, r') \<Rightarrow> (others ! nat i, r'))"

text \<open>
  \<^verbatim>\<open>_startRound\<close>. \<open>None\<close> stands for the TypeError of the source when the selected
  id is not one of the configurations (\<^verbatim>\<open>find(...)!\<close> is undefined).
\<close>

definition startRound :: "Game \<Rightarrow> Game option" where
  "startRound g0 =
     (let g = cleanupKnife g0 in
      if g_playerDictId g \<notin> set DICTATOR_CONFIGS then None
      else
        case pickOpponent (g_rng g) (g_playerDictId g) of (opponentConfig, r1) \<Rightarrow>
        let cx = centerX (g_arena g);
            cy = centerY (g_arena g);
            sep = Game_BALL_RADIUS * 3
        in case Rng_range r1 0 (pi * 2) of (angle1, r2) \<Rightarrow>
           case Rng_range r2 (- 0.5) 0.5 of (j, r3) \<Rightarrow>
             let angle2 = angle1 + pi + j;
                 dPlayer = (Dictator_new Game_BALL_RADIUS)
                   \<lparr>speedMul := speedMultiplier (g_outcome g), pos := \<lparr>vx = cx - sep, vy = cy\<rparr>\<rparr>;
                 dOpponent = (Dictator_new Game_BALL_RADIUS)
                   \<lparr>speedMul := 1.0, pos := \<lparr>vx = cx + sep, vy = cy\<rparr>\<rparr>
             in Some (g\<lparr>g_dictators :=
                          ((setVelocityAngle dPlayer angle1 Game_BASE_SPEED)\<lparr>role := RoleNone\<rparr>,
                           (setVelocityAngle dOpponent angle2 Game_BASE_SPEED)\<lparr>role := RoleNone\<rparr>),
                        g_rng := r3,
                        g_phase := prewait,
                        g_phaseTimer := Game_PREWAIT_DURATION,
                        g_accumulator := 0\<rparr>))"

text \<open>
  \<^verbatim>\<open>_onPlay\<close> with the seed already parsed to an integer: nothing happens unless the
  phase is idle or ended and the bet is covered; then the win chance is clamped, a fresh
  generator is made, the outcome is sampled and the round is started.
\<close>

definition onPlay :: "Game \<Rightarrow> real \<Rightarrow> string \<Rightarrow> real \<Rightarrow> int \<Rightarrow> Game option" where
  "onPlay g betAmount selectedDictatorId winCh seedVal =
     (if g_phase g \<noteq> idle \<and> g_phase g \<noteq> ended then Some g
      else if betAmount > g_balance g then Some g
      else
        let oc0 = setWinChance (g_outcome g) winCh in
        case sampleOutcome oc0 (Rng_new seedVal) of (oc, r) \<Rightarrow>
          startRound (g\<lparr>g_balance := g_balance g - betAmount, g_lastBet := betAmount,
                        g_playerDictId := selectedDictatorId, g_outcome := oc, g_rng := r\<rparr>))"

definition tickPrewait :: "real \<Rightarrow> Game \<Rightarrow> Game" where
  "tickPrewait dt g =
     (let t = g_phaseTimer g - dt in
      case applyWanderSteering (fst (g_dictators g)) (g_rng g) dt 0.5 of (dA, r1) \<Rightarrow>
      case applyWanderSteering (snd (g_dictators g)) r1 dt 0.5 of (dB, r2) \<Rightarrow>
        let g1 = g\<lparr>g_phaseTimer := t, g_dictators := (dA, dB), g_rng := r2\<rparr>
        in if t \<le> 0 then g1\<lparr>g_phase := preknife, g_phaseTimer := Game_PREKNIFE_DURATION\<rparr>
           else g1)"

definition spawnKnife :: "Game \<Rightarrow> Game" where
  "spawnKnife g =
     (let cx = centerX (g_arena g);
          cy = centerY (g_arena g);
          k = (case g_knife g of
                 None \<Rightarrow> Knife_new cx cy
               | Some k0 \<Rightarrow> k0\<lparr>knife_pos := \<lparr>vx = cx, vy = cy\<rparr>, pickedUp := False, visible := True\<rparr>)
      in g\<lparr>g_knife := Some k, g_knifePickedUp := False, g_phase := kniferace\<rparr>)"

definition tickPreknife :: "real \<Rightarrow> Game \<Rightarrow> Game" where
  "tickPreknife dt g =
     (let t = g_phaseTimer g - dt in
      case applyWanderSteering (fst (g_dictators g)) (g_rng g) dt 1.0 of (dA, r1) \<Rightarrow>
      case applyWanderSteering (snd (g_dictators g)) r1 dt 1.0 of (dB, r2) \<Rightarrow>
        let g1 = g\<lparr>g_phaseTimer := t, g_dictators := (dA, dB), g_rng := r2\<rparr>
        in if t \<le> 0 then spawnKnife g1 else g1)"

definition assignRoles :: "nat \<Rightarrow> Game \<Rightarrow> Game" where
  "assignRoles hunterIdx g =
     (let chaseSpeed = Game_BASE_SPEED * Game_CHASE_SPEED_MUL;
          dA = (fst (g_dictators g))
                 \<lparr>role := (if hunterIdx = 0 then Hunter else Runner), baseSpeed := chaseSpeed\<rparr>;
          dB = (snd (g_dictators g))
                 \<lparr>role := (if hunterIdx = 0 then Runner else Hunter), baseSpeed := chaseSpeed\<rparr>
      in g\<lparr>g_knifePickedUp := True,
           g_knife := map_option (\<lambda>k. k\<lparr>visible := False\<rparr>) (g_knife g),
           g_dictators := (normalizeSpeed dA (currentSpeed dA), normalizeSpeed dB (currentSpeed dB)),
           g_phase := chase,
           g_phaseTimer := Game_CHASE_DURATION\<rparr>)"

text \<open>
  The bias of the knife race on the interactive path: a tenth of the controller's
  attraction strength is added to the base seek impulse of the player's body.
\<close>

definition knifeRace_biasDelta :: "OutcomeController \<Rightarrow> real" where
  "knifeRace_biasDelta oc = knifeAttractionStrength oc * 0.1"

definition tickKnifeRace :: "real \<Rightarrow> Game \<Rightarrow> Game" where
  "tickKnifeRace dt g =
     (case g_knife g of
        None \<Rightarrow> g
      | Some k \<Rightarrow>
          let kx = vx (knife_pos k);
              ky = vy (knife_pos k);
              biasDelta = knifeRace_biasDelta (g_outcome g);
              dA = applyKnifeSeekSteering (fst (g_dictators g)) kx ky dt biasDelta;
              dB = applyKnifeSeekSteering (snd (g_dictators g)) kx ky dt 0;
              g1 = g\<lparr>g_dictators := (dA, dB)\<rparr>;
              pickupR = Game_BALL_RADIUS + knife_radius k;
              distA = sqrt ((vx (pos dA) - kx)\<^sup>2 + (vy (pos dA) - ky)\<^sup>2);
              distB = sqrt ((vx (pos dB) - kx)\<^sup>2 + (vy (pos dB) - ky)\<^sup>2)
          in if distA \<le> pickupR \<or> distB \<le> pickupR then
               assignRoles (if distA < distB then 0 else 1) g1
             else g1)"

text \<open>
  \<^verbatim>\<open>Economy.applyWin\<close> credits \<open>floor(lastBet \<times> 1.9 \<times> 100) / 100\<close>.
\<close>

definition endRound :: "bool \<Rightarrow> Game \<Rightarrow> Game" where
  "endRound won g =
     (let g1 = g\<lparr>g_phase := ended, g_playerWon := Some won\<rparr>
      in if won then
           g1\<lparr>g_balance := g_balance g + real_of_int \<lfloor>g_lastBet g * 1.9 * 100\<rfloor> / 100\<rparr>
         else g1)"

text \<open>
  \<^verbatim>\<open>_tickChase\<close>. The hunter and the runner are found by role; \<open>None\<close> stands for
  the TypeError of the source when one of them is missing.
\<close>

definition tickChase :: "real \<Rightarrow> Game \<Rightarrow> Game option" where
  "tickChase dt g =
     (let t = g_phaseTimer g - dt;
          dPlayer = fst (g_dictators g);
          dOpponent = snd (g_dictators g);
          isPlayerHunter = (role dPlayer = Hunter);
          playerSteerMul = steeringMultiplier (g_outcome g) isPlayerHunter
      in if role dPlayer = Hunter \<and> role dOpponent = Runner then
           (let hunter1 = applyHunterSteering dPlayer dOpponent dt playerSteerMul in
            case applyRunnerSteering dOpponent hunter1 (g_rng g) dt 1.0 of (runner1, r1) \<Rightarrow>
              let g1 = g\<lparr>g_phaseTimer := t, g_dictators := (hunter1, runner1), g_rng := r1\<rparr>;
                  dist = entityDistance hunter1 runner1
              in if dist \<le> radius hunter1 + radius runner1 then Some (endRound True g1)
                 else if t \<le> 0 then Some (endRound False g1)
                 else Some g1)
         else if role dPlayer = Runner \<and> role dOpponent = Hunter then
           (let hunter1 = applyHunterSteering dOpponent dPlayer dt 1.0 in
            case applyRunnerSteering dPlayer hunter1 (g_rng g) dt playerSteerMul of (runner1, r1) \<Rightarrow>
              let g1 = g\<lparr>g_phaseTimer := t, g_dictators := (runner1, hunter1), g_rng := r1\<rparr>;
                  dist = entityDistance hunter1 runner1
              in if dist \<le> radius hunter1 + radius runner1 then Some (endRound False g1)
                 else if t \<le> 0 then Some (endRound True g1)
                 else Some g1)
         else None)"

text \<open>
  The tail of \<^verbatim>\<open>_tick\<close>: each dictator is normalised to its current speed
  (\<open>baseSpeed \<times> speedMul\<close>), integrated and bounced off the walls; then the pair
  collision is resolved. \<open>game_renorm\<close> is the pair at the moment of integration.
\<close>

definition game_renorm :: "Game \<Rightarrow> Dictator \<times> Dictator" where
  "game_renorm g =
     (normalizeSpeed (fst (g_dictators g)) (currentSpeed (fst (g_dictators g))),
      normalizeSpeed (snd (g_dictators g)) (currentSpeed (snd (g_dictators g))))"

definition game_move :: "real \<Rightarrow> Game \<Rightarrow> Game" where
  "game_move dt g =
     (let dA = bounceWalls (integrateEntity (fst (game_renorm g)) dt) (g_arena g);
          dB = bounceWalls (integrateEntity (snd (game_renorm g)) dt) (g_arena g)
      in case bounceEntities dA dB of (hit, dA', dB') \<Rightarrow> g\<lparr>g_dictators := (dA', dB')\<rparr>)"

definition Game_tick :: "real \<Rightarrow> Game \<Rightarrow> Game option" where
  "Game_tick dt g =
     (case (case g_phase g of
              prewait \<Rightarrow> Some (tickPrewait dt g)
            | preknife \<Rightarrow> Some (tickPreknife dt g)
            | kniferace \<Rightarrow> Some (tickKnifeRace dt g)
            | chase \<Rightarrow> tickChase dt g
            | _ \<Rightarrow> Some g) of
        None \<Rightarrow> None
      | Some g1 \<Rightarrow> if g_phase g1 = ended then Some g1 else Some (game_move dt g1))"

text \<open>
  \<^verbatim>\<open>_update(dt)\<close>: nothing happens in the idle and ended phases; otherwise the
  frame time is added to the accumulator and one fixed step is taken for every
  \<^verbatim>\<open>FIXED_DT\<close> it holds, stopping when the round has ended. The loop terminates
  because a step leaves the accumulator alone and the loop takes \<^verbatim>\<open>FIXED_DT\<close> off.
  (The rendering calls that follow the loop are not modelled.)
\<close>

function update_loop :: "Game \<Rightarrow> Game option" where
  "update_loop g =
     (if g_accumulator g \<ge> Game_FIXED_DT then
        (case Game_tick Game_FIXED_DT g of
           None \<Rightarrow> None
         | Some g1 \<Rightarrow>
             let g2 = g1\<lparr>g_accumulator := g_accumulator g1 - Game_FIXED_DT\<rparr>
             in if g_phase g2 = ended then Some g2 else update_loop g2)
      else Some g)"
  by pat_completeness auto
termination
proof (relation "measure (\<lambda>g. nat \<lceil>g_accumulator g / Game_FIXED_DT\<rceil>)")
  show "wf (measure (\<lambda>g. nat \<lceil>g_accumulator g / Game_FIXED_DT\<rceil>))" by simp
next
  fix g g1 g2
  assume ge: "Game_FIXED_DT \<le> g_accumulator g"
    and t: "Game_tick Game_FIXED_DT g = Some g1"
    and g2: "g2 = g1\<lparr>g_accumulator := g_accumulator g1 - Game_FIXED_DT\<rparr>"
  have keep: "g_accumulator g1 = g_accumulator g"
    using t
    by (auto simp add: Game_tick_def tickPrewait_def tickPreknife_def spawnKnife_def
        tickKnifeRace_def assignRoles_def tickChase_def endRound_def game_move_def
        Let_def case_prod_beta
        split: GamePhase.splits option.splits if_splits)
  have "\<lceil>(g_accumulator g - Game_FIXED_DT) / Game_FIXED_DT\<rceil> = \<lceil>g_accumulator g / Game_FIXED_DT\<rceil> - 1"
    by (simp add: Game_FIXED_DT_def diff_divide_distrib)
  moreover have "1 \<le> \<lceil>g_accumulator g / Game_FIXED_DT\<rceil>"
    using ge by (simp add: Game_FIXED_DT_def) 
  ultimately show "(g2, g) \<in> measure (\<lambda>g. nat \<lceil>g_accumulator g / Game_FIXED_DT\<rceil>)"
    using g2 keep by simp
qed

definition Game_update :: "Game \<Rightarrow> real \<Rightarrow> Game option" where
  "Game_update g dt =
     (if g_phase g = idle \<or> g_phase g = ended then Some g
      else update_loop (g\<lparr>g_accumulator := g_accumulator g + dt\<rparr>))"

text \<open>
  \<open>n\<close> consecutive fixed steps, stopping when the round has ended: what the loop of
  \<^verbatim>\<open>_update\<close> does while the accumulator holds \<open>n\<close> steps.
\<close>

fun Game_ticks :: "nat \<Rightarrow> Game \<Rightarrow> Game option" where
  "Game_ticks 0 g = Some g"
| "Game_ticks (Suc n) g =
     (if g_phase g = ended then Some g
      else case Game_tick Game_FIXED_DT g of None \<Rightarrow> None | Some g' \<Rightarrow> Game_ticks n g')"

text \<open>The state of the headless loop after \<open>n\<close> ticks; \<open>None\<close> once the round has returned.\<close>

fun sim_ticks :: "nat \<Rightarrow> OutcomeController \<Rightarrow> SimArena \<Rightarrow> SimRound \<Rightarrow> SimRound option" where
  "sim_ticks 0 oc ar st = Some st"
| "sim_ticks (Suc n) oc ar st =
     (case sim_tick oc ar st of Inl r \<Rightarrow> None | Inr st' \<Rightarrow> sim_ticks n oc ar st')"

text \<open>
  A game object before its first round, with the given arena: the controller is built
  with \<open>0.5\<close> as in the constructor of \<^verbatim>\<open>Game\<close>, the balance is 1000.
\<close>

definition Game_new :: "SimArena \<Rightarrow> Game" where
  "Game_new ar =
     \<lparr>g_arena = ar,
      g_dictators = (Dictator_new Game_BALL_RADIUS, Dictator_new Game_BALL_RADIUS),
      g_knife = None,
      g_rng = Rng_new 0,
      g_outcome = OutcomeController_new 0.5 DEFAULT_BIAS,
      g_phase = idle,
      g_phaseTimer = 0,
      g_accumulator = 0,
      g_knifePickedUp = False,
      g_playerDictId = ''arafat'',
      g_balance = 1000,
      g_lastBet = 0,
      g_playerWon = None\<rparr>"

section \<open>Vocabulary for the turn-rate cap\<close>

text \<open>
  Names for the quantities \<^verbatim>\<open>applyImpulse\<close> computes inline: the scaled impulse
  \<^verbatim>\<open>(scaledX, scaledY)\<close>, the unit direction \<^verbatim>\<open>(nx, ny)\<close> of the velocity
  after the impulse was added, the component of a vector perpendicular to that direction
  (\<^verbatim>\<open>perpComp\<close> in the source) and along it, and the change of velocity between two
  states of an entity.
\<close>

definition scaledImpulse :: "real \<Rightarrow> real \<Rightarrow> real \<Rightarrow> real \<Rightarrow> Vec2" where
  "scaledImpulse ix iy dt impulseMul = \<lparr>vx = ix * impulseMul * dt, vy = iy * impulseMul * dt\<rparr>"

definition impulseDir :: "'a Entity_scheme \<Rightarrow> Vec2" where
  "impulseDir e1 = \<lparr>vx = vx (vel e1) / speed e1, vy = vy (vel e1) / speed e1\<rparr>"

definition perpComp :: "Vec2 \<Rightarrow> Vec2 \<Rightarrow> real" where
  "perpComp d n = vx d * (- vy n) + vy d * vx n"

definition parComp :: "Vec2 \<Rightarrow> Vec2 \<Rightarrow> real" where
  "parComp d n = vx d * vx n + vy d * vy n"

definition velocityChange :: "'a Entity_scheme \<Rightarrow> 'a Entity_scheme \<Rightarrow> Vec2" where
  "velocityChange e e' = \<lparr>vx = vx (vel e') - vx (vel e), vy = vy (vel e') - vy (vel e)\<rparr>"

section \<open>Vocabulary for the phase order of the interactive round\<close>

text \<open>
  In the chase phase \<^verbatim>\<open>_tickChase\<close> looks the hunter and the runner up by role;
  \<open>roles_assigned\<close> says that one dictator is the hunter and the other the runner.
  \<open>after_knife_spawn\<close> collects the phases that follow the preknife phase.
\<close>

definition roles_assigned :: "Game \<Rightarrow> bool" where
  "roles_assigned g \<longleftrightarrow>
     (role (fst (g_dictators g)) = Hunter \<and> role (snd (g_dictators g)) = Runner) \<or>
     (role (fst (g_dictators g)) = Runner \<and> role (snd (g_dictators g)) = Hunter)"

definition after_knife_spawn :: "Game \<Rightarrow> bool" where
  "after_knife_spawn g \<longleftrightarrow>
     g_phase g = kniferace \<or> g_phase g = ended \<or> (g_phase g = chase \<and> roles_assigned g)"

section \<open>Concrete inputs\<close>

text \<open>
  Bodies, states and configurations at which the closed theorems below evaluate the code.
\<close>

definition unit_mover :: SimEntity where
  "unit_mover = \<lparr>pos = \<lparr>vx = 0, vy = 0\<rparr>, vel = \<lparr>vx = 1, vy = 0\<rparr>, radius = 28, speedMul = 1\<rparr>"

definition left_wall_case :: SimEntity where
  "left_wall_case = \<lparr>pos = \<lparr>vx = 0, vy = 100\<rparr>, vel = \<lparr>vx = 5, vy = 0\<rparr>, radius = 28, speedMul = 1\<rparr>"

definition near_neighbour :: SimEntity where
  "near_neighbour = \<lparr>pos = \<lparr>vx = 1, vy = 0\<rparr>, vel = \<lparr>vx = 0, vy = 0\<rparr>, radius = 28, speedMul = 1\<rparr>"

definition far_neighbour :: SimEntity where
  "far_neighbour = \<lparr>pos = \<lparr>vx = 100, vy = 0\<rparr>, vel = \<lparr>vx = 0, vy = 0\<rparr>, radius = 28, speedMul = 1\<rparr>"

definition beside_center :: SimEntity where
  "beside_center = \<lparr>pos = \<lparr>vx = 259, vy = 260\<rparr>, vel = \<lparr>vx = 0, vy = 120\<rparr>, radius = 28, speedMul = 1\<rparr>"

definition turning_body :: Entity where
  "turning_body = \<lparr>pos = \<lparr>vx = 0, vy = 0\<rparr>, vel = \<lparr>vx = - 3, vy = - 3\<rparr>, radius = 28\<rparr>"

definition chase_state0 :: SimRound where
  "chase_state0 =
     \<lparr>ePlayer = \<lparr>pos = \<lparr>vx = 100, vy = 260\<rparr>, vel = \<lparr>vx = 120, vy = 0\<rparr>, radius = 28, speedMul = 1.03\<rparr>,
      eOpponent = \<lparr>pos = \<lparr>vx = 400, vy = 260\<rparr>, vel = \<lparr>vx = 120, vy = 0\<rparr>, radius = 28, speedMul = 1\<rparr>,
      rng = Rng_new 7,
      knifePickedUp = True,
      playerIsHunter = True,
      chaseTimer = 10,
      knifeSpawned = True,
      prewaitDone = True,
      prewaitTimer = 0,
      preknifeDone2Timer = 0\<rparr>"

definition sim_arena0 :: SimArena where
  "sim_arena0 = \<lparr>left = 0, right = 520, top = 0, bottom = 520, centerX = 260, centerY = 260\<rparr>"

definition win_controller :: OutcomeController where
  "win_controller = \<lparr>winChance = 1 / 2, bias = DEFAULT_BIAS, targetWin = True\<rparr>"

section \<open>Verified properties\<close>

text \<open>
  Everything below is proved about the definitions above. Distances and speeds are
  square roots of sums of squares; the first lemmas collect what is needed about them.
\<close>

subsection \<open>Speeds and their normalisation\<close>

lemma sqrt_scaled:
  "sqrt ((c * p) * (c * p) + (c * q) * (c * q)) = \<bar>c\<bar> * sqrt (p * p + q * q)"
proof -
  have "(c * p) * (c * p) + (c * q) * (c * q) = c\<^sup>2 * (p * p + q * q)"
    by (simp add: power2_eq_square algebra_simps)
  then show ?thesis
    by (simp add: real_sqrt_mult)
qed

lemma speed_nonneg: "0 \<le> speed e"
  by (simp add: speed_def)

lemma normSpeed_eq: "normSpeed e t = normalizeSpeed e t"
  by (simp add: normSpeed_def normalizeSpeed_def speed_def)

lemma normalizeSpeed_noop: "speed e < 0.0001 \<Longrightarrow> normalizeSpeed e t = e"
  by (simp add: normalizeSpeed_def)

lemma normalizeSpeed_vel:
  "\<not> speed e < 0.0001 \<Longrightarrow>
   vel (normalizeSpeed e t) =
     \<lparr>vx = (t / speed e) * vx (vel e), vy = (t / speed e) * vy (vel e)\<rparr>"
  by (simp add: normalizeSpeed_def Let_def)

lemma speed_normalizeSpeed:
  assumes "\<not> speed e < 0.0001"
  shows "speed (normalizeSpeed e t) = \<bar>t\<bar>"
proof -
  define c where "c = t / speed e"
  have pos: "0 < speed e" using assms by simp
  have "vel (normalizeSpeed e t) = \<lparr>vx = c * vx (vel e), vy = c * vy (vel e)\<rparr>"
    unfolding c_def by (rule normalizeSpeed_vel[OF assms])
  then have "speed (normalizeSpeed e t) =
      sqrt ((c * vx (vel e)) * (c * vx (vel e)) + (c * vy (vel e)) * (c * vy (vel e)))"
    by (simp add: speed_def)
  also have "\<dots> = \<bar>c\<bar> * speed e"
    by (simp only: sqrt_scaled speed_def)
  also have "\<dots> = \<bar>t\<bar>" using pos by (simp add: c_def abs_mult)
  finally show ?thesis .
qed

text \<open>
  The general form, for any real target: above the guard the velocity is scaled by
  \<open>targetSpeed / speed\<close> and its magnitude becomes the absolute value of the target.
\<close>

lemma normalizeSpeed_scales_velocity:
  "normSpeed e t = normalizeSpeed e t \<and>
   (if speed e < 0.0001 then normalizeSpeed e t = e
    else speed e \<noteq> 0 \<and>
         vel (normalizeSpeed e t) =
           \<lparr>vx = (t / speed e) * vx (vel e), vy = (t / speed e) * vy (vel e)\<rparr> \<and>
         pos (normalizeSpeed e t) = pos e \<and>
         radius (normalizeSpeed e t) = radius e \<and>
         speed (normalizeSpeed e t) = \<bar>t\<bar>)"
proof (cases "speed e < 0.0001")
  case True
  then show ?thesis by (simp add: normSpeed_eq normalizeSpeed_noop)
next
  case False
  moreover have "pos (normalizeSpeed e t) = pos e" "radius (normalizeSpeed e t) = radius e"
    by (simp_all add: normalizeSpeed_def Let_def)
  ultimately show ?thesis
    using normalizeSpeed_vel[of e t] speed_normalizeSpeed[of e t]
    by (simp add: normSpeed_eq)
qed

text \<open>
  A negative number is not a speed and no caller passes one; if one is passed, the
  velocity is reversed: \<open>(1, 0)\<close> normalised to \<open>-1\<close> is \<open>(-1, 0)\<close>.
\<close>

lemma normalizeSpeed_negative_target:
  "\<not> speed unit_mover < 0.0001 \<and>
   speed (normalizeSpeed unit_mover (- 1)) \<noteq> - 1 \<and>
   speed (normSpeed unit_mover (- 1)) \<noteq> - 1 \<and>
   vel (normalizeSpeed unit_mover (- 1)) = \<lparr>vx = - 1, vy = 0\<rparr>"
  by (simp add: normSpeed_def normalizeSpeed_def speed_def unit_mover_def)

lemma sum_squares_nonneg: "\<not> (a * a + b * b < (0::real))"
  by (simp add: not_less)

lemma normalizeSpeed_checked_total:
  "normalizeSpeed_checked e t = Some (normalizeSpeed e t)"
proof (cases "speed e < 0.0001")
  case True
  then show ?thesis
    by (simp add: normalizeSpeed_checked_def normalizeSpeed_def js_sqrt_def speed_def
        sum_squares_nonneg)
next
  case False
  then have "speed e \<noteq> 0" by auto
  then show ?thesis
    using False
    by (simp add: normalizeSpeed_checked_def normalizeSpeed_def js_sqrt_def js_div_def speed_def
        sum_squares_nonneg Let_def)
qed

lemma normSpeed_checked_total:
  "normSpeed_checked e t = Some (normSpeed e t)"
proof -
  have "normSpeed_checked e t = normalizeSpeed_checked e t"
    by (simp add: normSpeed_checked_def normalizeSpeed_checked_def)
  then show ?thesis by (simp add: normalizeSpeed_checked_total normSpeed_eq)
qed

text \<open>
  Claim C10. \<^verbatim>\<open>Entity.normalizeSpeed\<close> and the Simulation.ts copy
  \<^verbatim>\<open>normSpeed\<close> are the same function, and both are total: for every entity and
  every target the versions with partial square root and division return a result, so no
  division by zero happens and no NaN or infinite component is produced from finite
  inputs. If the current speed is below 0.0001 the entity, and so its velocity, is returned
  exactly unchanged. Otherwise, for every target speed (a speed is not negative), the
  resulting velocity has magnitude equal to the target speed and is a non-negative
  multiple of the old velocity, so the direction is preserved; position and radius are
  untouched.
\<close>

theorem normalizeSpeed_total_and_exact:
  "normSpeed e t = normalizeSpeed e t \<and>
   normalizeSpeed_checked e t = Some (normalizeSpeed e t) \<and>
   normSpeed_checked e t = Some (normSpeed e t) \<and>
   (speed e < 0.0001 \<longrightarrow> normalizeSpeed e t = e) \<and>
   (\<not> speed e < 0.0001 \<and> 0 \<le> t \<longrightarrow>
      speed (normalizeSpeed e t) = t \<and>
      0 \<le> t / speed e \<and>
      vel (normalizeSpeed e t) =
        \<lparr>vx = (t / speed e) * vx (vel e), vy = (t / speed e) * vy (vel e)\<rparr> \<and>
      pos (normalizeSpeed e t) = pos e \<and>
      radius (normalizeSpeed e t) = radius e)"
proof (intro conjI impI)
  show "normSpeed e t = normalizeSpeed e t" by (rule normSpeed_eq)
  show "normalizeSpeed_checked e t = Some (normalizeSpeed e t)"
    by (rule normalizeSpeed_checked_total)
  show "normSpeed_checked e t = Some (normSpeed e t)" by (rule normSpeed_checked_total)
next
  assume "speed e < 0.0001"
  then show "normalizeSpeed e t = e" by (rule normalizeSpeed_noop)
next
  assume h: "\<not> speed e < 0.0001 \<and> 0 \<le> t"
  then have g: "\<not> speed e < 0.0001" and t0: "0 \<le> t" by simp_all
  have spos: "0 < speed e" using g by simp
  show "speed (normalizeSpeed e t) = t" using speed_normalizeSpeed[OF g, of t] t0 by simp
  show "0 \<le> t / speed e" using spos t0 by simp
  show "vel (normalizeSpeed e t) =
        \<lparr>vx = (t / speed e) * vx (vel e), vy = (t / speed e) * vy (vel e)\<rparr>"
    by (rule normalizeSpeed_vel[OF g])
  show "pos (normalizeSpeed e t) = pos e" by (simp add: normalizeSpeed_def Let_def)
  show "radius (normalizeSpeed e t) = radius e" by (simp add: normalizeSpeed_def Let_def)
qed

lemma speed_concrete: "speed unit_mover = 1" "speed near_neighbour = 0"
  by (simp_all add: speed_def unit_mover_def near_neighbour_def)

theorem normalizeSpeed_total_and_exact_witness:
  "speed (normalizeSpeed unit_mover 240) = 240 \<and>
   vel (normalizeSpeed unit_mover 240) = \<lparr>vx = 240, vy = 0\<rparr> \<and>
   normalizeSpeed_checked unit_mover 240 = Some (normalizeSpeed unit_mover 240) \<and>
   normSpeed_checked unit_mover 240 = Some (normSpeed unit_mover 240) \<and>
   normalizeSpeed near_neighbour 240 = near_neighbour \<and>
   normSpeed near_neighbour 240 = near_neighbour"
  using normalizeSpeed_total_and_exact[of unit_mover 240]
        normalizeSpeed_total_and_exact[of near_neighbour 240]
  by (simp add: speed_concrete) (simp add: unit_mover_def)

subsection \<open>Wall bounce\<close>

lemma sim_bounceWalls_eq: "sim_bounceWalls e arena = bounceWalls e arena"
  by (simp add: sim_bounceWalls_def bounceWalls_def bounceWallsX_def bounceWallsY_def Let_def)

lemma bounceWallsX_frame:
  "radius (bounceWallsX e arena) = radius e"
  "vy (pos (bounceWallsX e arena)) = vy (pos e)"
  "vy (vel (bounceWallsX e arena)) = vy (vel e)"
  by (simp_all add: bounceWallsX_def Let_def)

lemma bounceWallsY_frame:
  "radius (bounceWallsY e arena) = radius e"
  "vx (pos (bounceWallsY e arena)) = vx (pos e)"
  "vx (vel (bounceWallsY e arena)) = vx (vel e)"
  by (simp_all add: bounceWallsY_def Let_def)

lemma bounceWallsX_axis:
  "(if vx (pos e) - radius e < left arena then
      vx (pos (bounceWallsX e arena)) = left arena + radius e \<and>
      vx (vel (bounceWallsX e arena)) = \<bar>vx (vel e)\<bar>
    else if vx (pos e) + radius e > right arena then
      vx (pos (bounceWallsX e arena)) = right arena - radius e \<and>
      vx (vel (bounceWallsX e arena)) = - \<bar>vx (vel e)\<bar>
    else bounceWallsX e arena = e)"
  by (simp add: bounceWallsX_def Let_def)

lemma bounceWallsY_axis:
  "(if vy (pos e) - radius e < top arena then
      vy (pos (bounceWallsY e arena)) = top arena + radius e \<and>
      vy (vel (bounceWallsY e arena)) = \<bar>vy (vel e)\<bar>
    else if vy (pos e) + radius e > bottom arena then
      vy (pos (bounceWallsY e arena)) = bottom arena - radius e \<and>
      vy (vel (bounceWallsY e arena)) = - \<bar>vy (vel e)\<bar>
    else bounceWallsY e arena = e)"
  by (simp add: bounceWallsY_def Let_def)

text \<open>
  Claim C6, as amended. \<^verbatim>\<open>bounceWalls\<close> (Physics.ts and its Simulation.ts
  copy, which are the same function) treats the axes one after the other. On an axis where
  the body's edge is below the lower bound (left, top) the position becomes
  \<open>bound + radius\<close> and the velocity component becomes its absolute value; otherwise,
  where the edge is above the upper bound (right, bottom), the position becomes
  \<open>bound - radius\<close> and the component becomes minus its absolute value; otherwise the
  axis is untouched. The component is therefore negated only when it pointed out of the
  arena. A body that crossed no bound is returned unchanged, and the radius never changes.
\<close>

theorem bounceWalls_clamps_and_points_inward:
  "sim_bounceWalls e arena = bounceWalls e arena \<and>
   radius (bounceWalls e arena) = radius e \<and>
   (if vx (pos e) - radius e < left arena then
      vx (pos (bounceWalls e arena)) = left arena + radius e \<and>
      vx (vel (bounceWalls e arena)) = \<bar>vx (vel e)\<bar>
    else if vx (pos e) + radius e > right arena then
      vx (pos (bounceWalls e arena)) = right arena - radius e \<and>
      vx (vel (bounceWalls e arena)) = - \<bar>vx (vel e)\<bar>
    else vx (pos (bounceWalls e arena)) = vx (pos e) \<and>
         vx (vel (bounceWalls e arena)) = vx (vel e)) \<and>
   (if vy (pos e) - radius e < top arena then
      vy (pos (bounceWalls e arena)) = top arena + radius e \<and>
      vy (vel (bounceWalls e arena)) = \<bar>vy (vel e)\<bar>
    else if vy (pos e) + radius e > bottom arena then
      vy (pos (bounceWalls e arena)) = bottom arena - radius e \<and>
      vy (vel (bounceWalls e arena)) = - \<bar>vy (vel e)\<bar>
    else vy (pos (bounceWalls e arena)) = vy (pos e) \<and>
         vy (vel (bounceWalls e arena)) = vy (vel e)) \<and>
   (if left arena \<le> vx (pos e) - radius e \<and> vx (pos e) + radius e \<le> right arena \<and>
       top arena \<le> vy (pos e) - radius e \<and> vy (pos e) + radius e \<le> bottom arena
    then bounceWalls e arena = e else True)"
proof -
  have a1: "sim_bounceWalls e arena = bounceWalls e arena" by (rule sim_bounceWalls_eq)
  have a2: "radius (bounceWalls e arena) = radius e"
    by (simp add: bounceWalls_def bounceWallsX_frame bounceWallsY_frame)
  have a3: "(if vx (pos e) - radius e < left arena then
      vx (pos (bounceWalls e arena)) = left arena + radius e \<and>
      vx (vel (bounceWalls e arena)) = \<bar>vx (vel e)\<bar>
    else if vx (pos e) + radius e > right arena then
      vx (pos (bounceWalls e arena)) = right arena - radius e \<and>
      vx (vel (bounceWalls e arena)) = - \<bar>vx (vel e)\<bar>
    else vx (pos (bounceWalls e arena)) = vx (pos e) \<and>
         vx (vel (bounceWalls e arena)) = vx (vel e))"
    using bounceWallsX_axis[of e arena]
    by (simp add: bounceWalls_def bounceWallsY_frame split: if_splits)
  have a4: "(if vy (pos e) - radius e < top arena then
      vy (pos (bounceWalls e arena)) = top arena + radius e \<and>
      vy (vel (bounceWalls e arena)) = \<bar>vy (vel e)\<bar>
    else if vy (pos e) + radius e > bottom arena then
      vy (pos (bounceWalls e arena)) = bottom arena - radius e \<and>
      vy (vel (bounceWalls e arena)) = - \<bar>vy (vel e)\<bar>
    else vy (pos (bounceWalls e arena)) = vy (pos e) \<and>
         vy (vel (bounceWalls e arena)) = vy (vel e))"
    using bounceWallsY_axis[of "bounceWallsX e arena" arena]
    by (simp add: bounceWalls_def bounceWallsX_frame split: if_splits)
  have a5: "(if left arena \<le> vx (pos e) - radius e \<and> vx (pos e) + radius e \<le> right arena \<and>
       top arena \<le> vy (pos e) - radius e \<and> vy (pos e) + radius e \<le> bottom arena
    then bounceWalls e arena = e else True)"
    by (simp add: bounceWalls_def bounceWallsX_def bounceWallsY_def Let_def)
  from a1 a2 a3 a4 a5 show ?thesis by (intro conjI)
qed

text \<open>
  The claim as written says the component is always negated. A body whose edge is left of
  the left wall while it already moves to the right (which happens after
  \<^verbatim>\<open>bounceEntities\<close> pushed it across the wall) keeps its velocity: here
  \<open>vel.x = 5\<close> stays 5.
\<close>

theorem bounceWalls_flip_counterexample:
  "vx (pos left_wall_case) - radius left_wall_case < left (Arena 0 0 520) \<and>
   vx (pos (bounceWalls left_wall_case (Arena 0 0 520))) = left (Arena 0 0 520) + radius left_wall_case \<and>
   vx (vel (bounceWalls left_wall_case (Arena 0 0 520))) = 5 \<and>
   vx (vel (bounceWalls left_wall_case (Arena 0 0 520))) \<noteq> - vx (vel left_wall_case) \<and>
   vx (vel (sim_bounceWalls left_wall_case (Arena 0 0 520))) \<noteq> - vx (vel left_wall_case)"
  by (simp add: sim_bounceWalls_def bounceWalls_def bounceWallsX_def bounceWallsY_def Let_def
      left_wall_case_def Arena_def)


subsection \<open>Collision of the two bodies\<close>

lemma sim_bounceEntities_eq: "sim_bounceEntities a b = snd (bounceEntities a b)"
  by (simp add: sim_bounceEntities_def bounceEntities_def Let_def)

lemma bounceEntities_miss:
  "entityDistance a b \<ge> radius a + radius b \<or> entityDistance a b < 0.0001 \<Longrightarrow>
   bounceEntities a b = (False, a, b)"
  by (auto simp add: bounceEntities_def entityDistance_def Let_def)

lemma bounceEntities_hit_pos:
  assumes "\<not> (entityDistance a b \<ge> radius a + radius b \<or> entityDistance a b < 0.0001)"
  shows "fst (bounceEntities a b)"
    and "pos (fst (snd (bounceEntities a b))) =
          \<lparr>vx = vx (pos a) - (vx (pos b) - vx (pos a)) / entityDistance a b
                   * (radius a + radius b - entityDistance a b) * 0.5,
           vy = vy (pos a) - (vy (pos b) - vy (pos a)) / entityDistance a b
                   * (radius a + radius b - entityDistance a b) * 0.5\<rparr>"
    and "pos (snd (snd (bounceEntities a b))) =
          \<lparr>vx = vx (pos b) + (vx (pos b) - vx (pos a)) / entityDistance a b
                   * (radius a + radius b - entityDistance a b) * 0.5,
           vy = vy (pos b) + (vy (pos b) - vy (pos a)) / entityDistance a b
                   * (radius a + radius b - entityDistance a b) * 0.5\<rparr>"
    and "radius (fst (snd (bounceEntities a b))) = radius a"
    and "radius (snd (snd (bounceEntities a b))) = radius b"
  using assms by (simp_all add: bounceEntities_def entityDistance_def Let_def)

lemma bounceEntities_hit_distance:
  assumes lo: "0.0001 \<le> entityDistance a b" and hi: "entityDistance a b < radius a + radius b"
  shows "entityDistance (fst (snd (bounceEntities a b))) (snd (snd (bounceEntities a b)))
         = radius a + radius b"
proof -
  define dx where "dx = vx (pos b) - vx (pos a)"
  define dy where "dy = vy (pos b) - vy (pos a)"
  define d where "d = entityDistance a b"
  define m where "m = radius a + radius b"
  have d_sqrt: "d = sqrt (dx * dx + dy * dy)"
    by (simp add: d_def dx_def dy_def entityDistance_def Let_def)
  have dpos: "0 < d" using lo by (simp add: d_def)
  have mpos: "0 < m" using lo hi by (simp add: m_def)
  have hit: "\<not> (entityDistance a b \<ge> radius a + radius b \<or> entityDistance a b < 0.0001)"
    using lo hi by simp
  have ex: "vx (pos (snd (snd (bounceEntities a b)))) - vx (pos (fst (snd (bounceEntities a b))))
           = (m / d) * dx"
    unfolding bounceEntities_hit_pos[OF hit] using dpos
    by (simp add: dx_def d_def m_def field_simps)
  have ey: "vy (pos (snd (snd (bounceEntities a b)))) - vy (pos (fst (snd (bounceEntities a b))))
           = (m / d) * dy"
    unfolding bounceEntities_hit_pos[OF hit] using dpos
    by (simp add: dy_def d_def m_def field_simps)
  have "entityDistance (fst (snd (bounceEntities a b))) (snd (snd (bounceEntities a b)))
        = sqrt (((m / d) * dx) * ((m / d) * dx) + ((m / d) * dy) * ((m / d) * dy))"
    unfolding entityDistance_def Let_def ex ey ..
  also have "\<dots> = \<bar>m / d\<bar> * d"
    by (simp only: sqrt_scaled d_sqrt)
  also have "\<dots> = m" using dpos mpos by simp
  finally show ?thesis by (simp add: m_def)
qed

lemma bounceEntities_hit_push:
  assumes lo: "0.0001 \<le> entityDistance a b" and hi: "entityDistance a b < radius a + radius b"
  shows "dist2D (pos (fst (snd (bounceEntities a b)))) (pos a)
           = (radius a + radius b - entityDistance a b) / 2"
    and "dist2D (pos (snd (snd (bounceEntities a b)))) (pos b)
           = (radius a + radius b - entityDistance a b) / 2"
proof -
  define dx where "dx = vx (pos b) - vx (pos a)"
  define dy where "dy = vy (pos b) - vy (pos a)"
  define d where "d = entityDistance a b"
  define h where "h = (radius a + radius b - entityDistance a b) / 2"
  have d_sqrt: "d = sqrt (dx * dx + dy * dy)"
    by (simp add: d_def dx_def dy_def entityDistance_def Let_def)
  have dpos: "0 < d" using lo by (simp add: d_def)
  have hpos: "0 < h" using hi by (simp add: h_def)
  have hit: "\<not> (entityDistance a b \<ge> radius a + radius b \<or> entityDistance a b < 0.0001)"
    using lo hi by simp
  have unit: "\<bar>h / d\<bar> * d = h" using dpos hpos by simp
  have ax: "vx (pos (fst (snd (bounceEntities a b)))) - vx (pos a) = (- (h / d)) * dx"
    and ay: "vy (pos (fst (snd (bounceEntities a b)))) - vy (pos a) = (- (h / d)) * dy"
    and bx: "vx (pos (snd (snd (bounceEntities a b)))) - vx (pos b) = (h / d) * dx"
    and by': "vy (pos (snd (snd (bounceEntities a b)))) - vy (pos b) = (h / d) * dy"
    unfolding bounceEntities_hit_pos[OF hit]
    by (simp_all add: dx_def dy_def d_def h_def mult.commute)
  have "dist2D (pos (fst (snd (bounceEntities a b)))) (pos a)
        = sqrt (((- (h / d)) * dx) * ((- (h / d)) * dx) + ((- (h / d)) * dy) * ((- (h / d)) * dy))"
    unfolding dist2D_def power2_eq_square ax ay ..
  also have "\<dots> = \<bar>- (h / d)\<bar> * d"
    by (simp only: sqrt_scaled d_sqrt)
  finally show "dist2D (pos (fst (snd (bounceEntities a b)))) (pos a)
           = (radius a + radius b - entityDistance a b) / 2"
    using unit by (simp add: h_def)
  have "dist2D (pos (snd (snd (bounceEntities a b)))) (pos b)
        = sqrt (((h / d) * dx) * ((h / d) * dx) + ((h / d) * dy) * ((h / d) * dy))"
    unfolding dist2D_def power2_eq_square bx by' ..
  also have "\<dots> = \<bar>h / d\<bar> * d"
    by (simp only: sqrt_scaled d_sqrt)
  finally show "dist2D (pos (snd (snd (bounceEntities a b)))) (pos b)
           = (radius a + radius b - entityDistance a b) / 2"
    using unit by (simp add: h_def)
qed

lemma bounceEntities_hit_midpoint:
  assumes lo: "0.0001 \<le> entityDistance a b" and hi: "entityDistance a b < radius a + radius b"
  shows "vx (pos (fst (snd (bounceEntities a b)))) + vx (pos (snd (snd (bounceEntities a b))))
           = vx (pos a) + vx (pos b)"
    and "vy (pos (fst (snd (bounceEntities a b)))) + vy (pos (snd (snd (bounceEntities a b))))
           = vy (pos a) + vy (pos b)"
proof -
  have hit: "\<not> (entityDistance a b \<ge> radius a + radius b \<or> entityDistance a b < 0.0001)"
    using lo hi by simp
  show "vx (pos (fst (snd (bounceEntities a b)))) + vx (pos (snd (snd (bounceEntities a b))))
           = vx (pos a) + vx (pos b)"
    unfolding bounceEntities_hit_pos[OF hit] by simp
  show "vy (pos (fst (snd (bounceEntities a b)))) + vy (pos (snd (snd (bounceEntities a b))))
           = vy (pos a) + vy (pos b)"
    unfolding bounceEntities_hit_pos[OF hit] by simp
qed

text \<open>
  Claim C7. If the centre distance \<open>d\<close> of the two entities satisfies
  \<open>0.0001 \<le> d < radius a + radius b\<close>, \<^verbatim>\<open>bounceEntities\<close> returns true and
  afterwards the centre distance is exactly \<open>radius a + radius b\<close>; each body has moved
  by half the overlap, in opposite directions (the midpoint of the centres is kept), and
  the radii are unchanged. If \<open>d \<ge> radius a + radius b\<close> or \<open>d < 0.0001\<close> it returns
  false and both entities are unchanged. The Simulation.ts copy, which returns nothing,
  leaves the two entities in the same state as the Physics.ts function.
\<close>

theorem bounceEntities_separates_overlapping_pair:
  "(0.0001 \<le> entityDistance a b \<and> entityDistance a b < radius a + radius b \<longrightarrow>
      (case bounceEntities a b of (hit, a', b') \<Rightarrow>
         hit \<and>
         entityDistance a' b' = radius a + radius b \<and>
         dist2D (pos a') (pos a) = (radius a + radius b - entityDistance a b) / 2 \<and>
         dist2D (pos b') (pos b) = (radius a + radius b - entityDistance a b) / 2 \<and>
         vx (pos a') + vx (pos b') = vx (pos a) + vx (pos b) \<and>
         vy (pos a') + vy (pos b') = vy (pos a) + vy (pos b) \<and>
         radius a' = radius a \<and> radius b' = radius b)) \<and>
   (entityDistance a b \<ge> radius a + radius b \<or> entityDistance a b < 0.0001 \<longrightarrow>
      bounceEntities a b = (False, a, b)) \<and>
   sim_bounceEntities a b = snd (bounceEntities a b)"
proof (intro conjI impI)
  assume h: "0.0001 \<le> entityDistance a b \<and> entityDistance a b < radius a + radius b"
  then have lo: "0.0001 \<le> entityDistance a b" and hi: "entityDistance a b < radius a + radius b"
    by simp_all
  have hit: "\<not> (entityDistance a b \<ge> radius a + radius b \<or> entityDistance a b < 0.0001)"
    using lo hi by simp
  show "case bounceEntities a b of (hit, a', b') \<Rightarrow>
         hit \<and>
         entityDistance a' b' = radius a + radius b \<and>
         dist2D (pos a') (pos a) = (radius a + radius b - entityDistance a b) / 2 \<and>
         dist2D (pos b') (pos b) = (radius a + radius b - entityDistance a b) / 2 \<and>
         vx (pos a') + vx (pos b') = vx (pos a) + vx (pos b) \<and>
         vy (pos a') + vy (pos b') = vy (pos a) + vy (pos b) \<and>
         radius a' = radius a \<and> radius b' = radius b"
    using bounceEntities_hit_pos(1,4,5)[OF hit] bounceEntities_hit_distance[OF lo hi]
      bounceEntities_hit_push[OF lo hi] bounceEntities_hit_midpoint[OF lo hi]
    by (simp add: case_prod_beta)
next
  assume "entityDistance a b \<ge> radius a + radius b \<or> entityDistance a b < 0.0001"
  then show "bounceEntities a b = (False, a, b)" by (rule bounceEntities_miss)
next
  show "sim_bounceEntities a b = snd (bounceEntities a b)" by (rule sim_bounceEntities_eq)
qed

lemma entityDistance_near: "entityDistance unit_mover near_neighbour = 1"
  by (simp add: entityDistance_def unit_mover_def near_neighbour_def)

lemma entityDistance_far: "entityDistance unit_mover far_neighbour = 100"
proof -
  have "sqrt (100 * 100) = \<bar>100::real\<bar>" by (rule real_sqrt_abs2)
  then show ?thesis
    by (simp add: entityDistance_def unit_mover_def far_neighbour_def)
qed

theorem bounceEntities_separates_witness:
  "(case bounceEntities unit_mover near_neighbour of (hit, a', b') \<Rightarrow>
      hit \<and> entityDistance a' b' = 56 \<and>
      dist2D (pos a') (pos unit_mover) = 55 / 2 \<and> dist2D (pos b') (pos near_neighbour) = 55 / 2) \<and>
   bounceEntities unit_mover far_neighbour = (False, unit_mover, far_neighbour)"
proof -
  have r: "radius unit_mover + radius near_neighbour = 56" "radius unit_mover + radius far_neighbour = 56"
    by (simp_all add: unit_mover_def near_neighbour_def far_neighbour_def)
  show ?thesis
    using bounceEntities_separates_overlapping_pair[of unit_mover near_neighbour]
      bounceEntities_separates_overlapping_pair[of unit_mover far_neighbour]
    by (simp add: entityDistance_near entityDistance_far r case_prod_beta)
qed

subsection \<open>The win probability of the controller\<close>

text \<open>
  Claim C9, evaluated on the code. \<^verbatim>\<open>setWinChance\<close> clamps every argument into
  \<open>[0, 1]\<close>, but the constructor stores its argument as it is: built with \<open>1.5\<close> the
  controller holds \<open>1.5\<close>, built with \<open>-0.5\<close> it holds \<open>-0.5\<close>.
  \<^verbatim>\<open>runSimulation\<close> passes its \<^verbatim>\<open>winChance\<close> argument to the constructor,
  and the value is still \<open>1.5\<close> when a headless round has sampled its outcome against it.
\<close>

theorem setWinChance_clamps_constructor_does_not:
  "0 \<le> winChance (setWinChance oc p) \<and> winChance (setWinChance oc p) \<le> 1 \<and>
   winChance (OutcomeController_new (3 / 2) DEFAULT_BIAS) = 3 / 2 \<and>
   \<not> winChance (OutcomeController_new (3 / 2) DEFAULT_BIAS) \<le> 1 \<and>
   winChance (OutcomeController_new (- 1 / 2) DEFAULT_BIAS) < 0 \<and>
   winChance (fst (simulateRound_init r (OutcomeController_new (3 / 2) DEFAULT_BIAS) ar)) = 3 / 2"
  by (simp add: setWinChance_def OutcomeController_new_def simulateRound_init_def
      sampleOutcome_def Let_def case_prod_beta)

subsection \<open>Bias magnitudes\<close>

lemma centerAttract_velocity_change:
  "dist2D (vel (centerAttract e cx cy dt strength)) (vel e) =
     (if sqrt ((cx - vx (pos e)) * (cx - vx (pos e)) + (cy - vy (pos e)) * (cy - vy (pos e))) < 0.001
      then 0 else \<bar>strength * dt\<bar>)"
proof -
  define dx where "dx = cx - vx (pos e)"
  define dy where "dy = cy - vy (pos e)"
  define d where "d = sqrt (dx * dx + dy * dy)"
  show ?thesis
  proof (cases "d < 0.001")
    case True
    then show ?thesis
      by (simp add: centerAttract_def dist2D_def Let_def d_def dx_def dy_def)
  next
    case False
    then have dpos: "0 < d" by simp
    have vel': "vel (centerAttract e cx cy dt strength) =
        \<lparr>vx = vx (vel e) + (dx / d) * strength * dt, vy = vy (vel e) + (dy / d) * strength * dt\<rparr>"
      using False by (simp add: centerAttract_def Let_def d_def dx_def dy_def)
    have "dist2D (vel (centerAttract e cx cy dt strength)) (vel e) =
        sqrt (((strength * dt / d) * dx) * ((strength * dt / d) * dx)
            + ((strength * dt / d) * dy) * ((strength * dt / d) * dy))"
      unfolding vel' dist2D_def power2_eq_square by (simp add: mult_ac)
    also have "\<dots> = \<bar>strength * dt / d\<bar> * d"
      by (simp only: sqrt_scaled d_def)
    also have "\<dots> = \<bar>strength * dt\<bar>" using dpos by simp
    finally show ?thesis using False by (simp add: d_def dx_def dy_def)
  qed
qed

text \<open>
  Claim C8, as amended. With the default bias parameters, for both values of
  \<^verbatim>\<open>targetWin\<close> and every win probability: the steering and the speed multiplier
  differ from 1 by at most 0.25; on the interactive path the bias added to the knife-seek
  impulse (a tenth of the attraction strength) is at most 25% of the base impulse 200; the
  attraction strength itself is 30% of that base when \<^verbatim>\<open>targetWin\<close> is true and
  20% when it is false, and the headless path applies it undivided: one call of
  \<^verbatim>\<open>centerAttract\<close> changes the velocity by at most that share of \<open>200 \<times> |dt|\<close>.
\<close>

theorem bias_magnitudes_bounded:
  "\<bar>steeringMultiplier \<lparr>winChance = p, bias = DEFAULT_BIAS, targetWin = tw\<rparr> isHunter - 1\<bar> \<le> 0.25 \<and>
   \<bar>speedMultiplier \<lparr>winChance = p, bias = DEFAULT_BIAS, targetWin = tw\<rparr> - 1\<bar> \<le> 0.25 \<and>
   \<bar>knifeRace_biasDelta \<lparr>winChance = p, bias = DEFAULT_BIAS, targetWin = tw\<rparr>\<bar>
      \<le> 0.25 * MAX_KNIFE_SEEK_IMPULSE \<and>
   \<bar>knifeAttractionStrength \<lparr>winChance = p, bias = DEFAULT_BIAS, targetWin = tw\<rparr>\<bar>
      = (if tw then 0.30 else 0.20) * MAX_KNIFE_SEEK_IMPULSE \<and>
   dist2D (vel (centerAttract e cx cy dt
        (knifeAttractionStrength \<lparr>winChance = p, bias = DEFAULT_BIAS, targetWin = tw\<rparr>))) (vel e)
      \<le> (if tw then 0.30 else 0.20) * MAX_KNIFE_SEEK_IMPULSE * \<bar>dt\<bar>"
proof -
  have k: "\<bar>knifeAttractionStrength \<lparr>winChance = p, bias = DEFAULT_BIAS, targetWin = tw\<rparr>\<bar>
      = (if tw then 0.30 else 0.20) * MAX_KNIFE_SEEK_IMPULSE"
    by (simp add: knifeAttractionStrength_def DEFAULT_BIAS_def MAX_KNIFE_SEEK_IMPULSE_def)
  have "dist2D (vel (centerAttract e cx cy dt
        (knifeAttractionStrength \<lparr>winChance = p, bias = DEFAULT_BIAS, targetWin = tw\<rparr>))) (vel e)
      \<le> \<bar>knifeAttractionStrength \<lparr>winChance = p, bias = DEFAULT_BIAS, targetWin = tw\<rparr>\<bar> * \<bar>dt\<bar>"
    unfolding centerAttract_velocity_change by (simp add: abs_mult)
  then have c: "dist2D (vel (centerAttract e cx cy dt
        (knifeAttractionStrength \<lparr>winChance = p, bias = DEFAULT_BIAS, targetWin = tw\<rparr>))) (vel e)
      \<le> (if tw then 0.30 else 0.20) * MAX_KNIFE_SEEK_IMPULSE * \<bar>dt\<bar>"
    unfolding k .
  have s: "\<bar>steeringMultiplier \<lparr>winChance = p, bias = DEFAULT_BIAS, targetWin = tw\<rparr> isHunter - 1\<bar> \<le> 0.25"
    by (simp add: steeringMultiplier_def DEFAULT_BIAS_def)
  have v: "\<bar>speedMultiplier \<lparr>winChance = p, bias = DEFAULT_BIAS, targetWin = tw\<rparr> - 1\<bar> \<le> 0.25"
    by (simp add: speedMultiplier_def DEFAULT_BIAS_def)
  have b: "\<bar>knifeRace_biasDelta \<lparr>winChance = p, bias = DEFAULT_BIAS, targetWin = tw\<rparr>\<bar>
      \<le> 0.25 * MAX_KNIFE_SEEK_IMPULSE"
    by (simp add: knifeRace_biasDelta_def knifeAttractionStrength_def DEFAULT_BIAS_def
        MAX_KNIFE_SEEK_IMPULSE_def)
  from s v b k c show ?thesis by (intro conjI)
qed

text \<open>
  The claim as written fails on the headless path when \<^verbatim>\<open>targetWin\<close> is true: in
  one tick \<^verbatim>\<open>centerAttract\<close> changes the velocity of a body next to the centre by
  \<open>60 / 60 = 1\<close>, more than a quarter of the base knife-seek impulse per tick,
  \<open>0.25 \<times> 200 / 60\<close>.
\<close>

theorem knife_attraction_exceeds_quarter_counterexample:
  "knifeAttractionStrength \<lparr>winChance = 1 / 2, bias = DEFAULT_BIAS, targetWin = True\<rparr> = 60 \<and>
   dist2D (vel (centerAttract beside_center (centerX (Arena 0 0 520)) (centerY (Arena 0 0 520)) FIXED_DT
       (knifeAttractionStrength \<lparr>winChance = 1 / 2, bias = DEFAULT_BIAS, targetWin = True\<rparr>)))
     (vel beside_center) = 1 \<and>
   \<not> (1 \<le> 0.25 * (MAX_KNIFE_SEEK_IMPULSE * FIXED_DT))"
  by (simp add: knifeAttractionStrength_def DEFAULT_BIAS_def centerAttract_def dist2D_def
      beside_center_def Arena_def FIXED_DT_def MAX_KNIFE_SEEK_IMPULSE_def Let_def)


subsection \<open>The turn-rate cap of applyImpulse\<close>

lemma applyImpulse_capped:
  assumes spd: "speed (addScaledImpulse e ix iy dt m) > 0.001"
      and over: "\<bar>perpComp (scaledImpulse ix iy dt m) (impulseDir (addScaledImpulse e ix iy dt m))\<bar>
                 > speed (addScaledImpulse e ix iy dt m) * tan (TURN_RATE_CAP * dt)"
      and fct: "fct = speed (addScaledImpulse e ix iy dt m) * tan (TURN_RATE_CAP * dt)
                   * sgn (perpComp (scaledImpulse ix iy dt m) (impulseDir (addScaledImpulse e ix iy dt m)))
                   / perpComp (scaledImpulse ix iy dt m) (impulseDir (addScaledImpulse e ix iy dt m))"
  shows "applyImpulse e ix iy dt m =
         e\<lparr>vel := \<lparr>vx = vx (vel e) + ix * m * dt * fct, vy = vy (vel e) + iy * m * dt * fct\<rparr>\<rparr>"
proof -
  have over': "\<bar>ix * m * dt * (- (vy (vel (addScaledImpulse e ix iy dt m)) / speed (addScaledImpulse e ix iy dt m)))
        + iy * m * dt * (vx (vel (addScaledImpulse e ix iy dt m)) / speed (addScaledImpulse e ix iy dt m))\<bar>
        > speed (addScaledImpulse e ix iy dt m) * tan (TURN_RATE_CAP * dt)"
    using over by (simp add: perpComp_def scaledImpulse_def impulseDir_def)
  show ?thesis
    unfolding applyImpulse_def Let_def fct
    using spd over'
    by (simp add: perpComp_def scaledImpulse_def impulseDir_def addScaledImpulse_def)
qed

lemma tan_twentieth: "0 < tan (1 / 20 :: real)" "tan (1 / 20 :: real) < 1"
proof -
  have p: "2 \<le> pi" by (rule pi_ge_two)
  show "0 < tan (1 / 20 :: real)"
    by (rule tan_gt_zero) (use p in auto)
  have "tan (1 / 20 :: real) < tan (pi / 4)"
    by (rule tan_monotone) (use p in auto)
  then show "tan (1 / 20 :: real) < 1" by (simp add: tan_45)
qed

lemma turning_body_added:
  "vel (addScaledImpulse turning_body 180 240 (1 / 60) 1) = \<lparr>vx = 0, vy = 1\<rparr>"
  "speed (addScaledImpulse turning_body 180 240 (1 / 60) 1) = 1"
  "impulseDir (addScaledImpulse turning_body 180 240 (1 / 60) 1) = \<lparr>vx = 0, vy = 1\<rparr>"
  "scaledImpulse 180 240 (1 / 60) 1 = \<lparr>vx = 3, vy = 4\<rparr>"
  by (simp_all add: addScaledImpulse_def turning_body_def speed_def impulseDir_def scaledImpulse_def)

text \<open>
  Claim C5, as amended. Speed and direction are those of the velocity after the scaled
  impulse was added. If that speed is above 0.001, the cap
  \<open>speed \<times> tan (TURN_RATE_CAP \<times> dt)\<close> is not negative and the perpendicular component of
  the scaled impulse exceeds the cap, then \<^verbatim>\<open>applyImpulse\<close> applies the whole impulse
  scaled by the factor \<open>f = cap / |perpComp|\<close>, with \<open>0 \<le> f < 1\<close>: the perpendicular
  component of the applied change is the cap with the sign kept, and the parallel
  component is scaled by the same factor. Position and radius are untouched.
\<close>

theorem applyImpulse_scales_whole_impulse:
  assumes spd: "speed (addScaledImpulse e ix iy dt m) > 0.001"
      and tan0: "0 \<le> tan (TURN_RATE_CAP * dt)"
      and over: "\<bar>perpComp (scaledImpulse ix iy dt m) (impulseDir (addScaledImpulse e ix iy dt m))\<bar>
                 > speed (addScaledImpulse e ix iy dt m) * tan (TURN_RATE_CAP * dt)"
  shows "let e1 = addScaledImpulse e ix iy dt m;
             n = impulseDir e1;
             s = scaledImpulse ix iy dt m;
             cap = speed e1 * tan (TURN_RATE_CAP * dt);
             f = cap / \<bar>perpComp s n\<bar>;
             d = velocityChange e (applyImpulse e ix iy dt m)
         in d = \<lparr>vx = f * vx s, vy = f * vy s\<rparr> \<and>
            perpComp d n = cap * sgn (perpComp s n) \<and>
            parComp d n = f * parComp s n \<and>
            0 \<le> f \<and> f < 1 \<and>
            pos (applyImpulse e ix iy dt m) = pos e \<and>
            radius (applyImpulse e ix iy dt m) = radius e"
proof -
  define e1 where "e1 = addScaledImpulse e ix iy dt m"
  define n where "n = impulseDir e1"
  define s where "s = scaledImpulse ix iy dt m"
  define cap where "cap = speed e1 * tan (TURN_RATE_CAP * dt)"
  define p where "p = perpComp s n"
  define f where "f = cap / \<bar>p\<bar>"
  define d where "d = velocityChange e (applyImpulse e ix iy dt m)"
  have cap0: "0 \<le> cap" using spd tan0 by (simp add: cap_def e1_def)
  have pgt: "\<bar>p\<bar> > cap" using over by (simp add: p_def s_def n_def e1_def cap_def)
  then have pne: "p \<noteq> 0" using cap0 by auto
  have fac: "f = cap * sgn p / p"
    using pne by (simp add: f_def sgn_real_def)
  have f0: "0 \<le> f" using cap0 by (simp add: f_def)
  have f1: "f < 1" using pgt cap0 pne by (simp add: f_def)
  have app: "applyImpulse e ix iy dt m =
      e\<lparr>vel := \<lparr>vx = vx (vel e) + ix * m * dt * f, vy = vy (vel e) + iy * m * dt * f\<rparr>\<rparr>"
    by (rule applyImpulse_capped[OF spd over fac[unfolded p_def s_def n_def e1_def cap_def]])
  have dd: "d = \<lparr>vx = f * vx s, vy = f * vy s\<rparr>"
    by (simp add: d_def velocityChange_def app s_def scaledImpulse_def mult.commute)
  have perp: "perpComp d n = cap * sgn p"
  proof -
    have "perpComp d n = f * p"
      by (simp add: dd perpComp_def p_def algebra_simps)
    also have "\<dots> = cap * sgn p" using pne by (simp add: f_def sgn_real_def)
    finally show ?thesis .
  qed
  have par: "parComp d n = f * parComp s n"
    by (simp add: dd parComp_def algebra_simps)
  have fr: "pos (applyImpulse e ix iy dt m) = pos e" "radius (applyImpulse e ix iy dt m) = radius e"
    by (simp_all add: app)
  show ?thesis
    unfolding Let_def
    using dd perp par f0 f1 fr
    by (simp add: e1_def n_def s_def cap_def p_def f_def d_def)
qed

text \<open>
  The claim as written says the parallel component is left unchanged. For a body with
  velocity \<open>(-3, -3)\<close> and the impulse \<open>(180, 240)\<close> at \<open>dt = 1/60\<close> the scaled impulse
  is \<open>(3, 4)\<close>, the new velocity \<open>(0, 1)\<close>; the turning component 3 exceeds the cap
  \<open>tan (1/20)\<close>, the parallel component of the impulse is 4, and the parallel component
  of the change that is applied is below \<open>4/3\<close>.
\<close>

theorem applyImpulse_parallel_counterexample:
  "speed (addScaledImpulse turning_body 180 240 (1 / 60) 1) > 0.001 \<and>
   \<bar>perpComp (scaledImpulse 180 240 (1 / 60) 1)
        (impulseDir (addScaledImpulse turning_body 180 240 (1 / 60) 1))\<bar>
     > speed (addScaledImpulse turning_body 180 240 (1 / 60) 1) * tan (TURN_RATE_CAP * (1 / 60)) \<and>
   parComp (scaledImpulse 180 240 (1 / 60) 1)
        (impulseDir (addScaledImpulse turning_body 180 240 (1 / 60) 1)) = 4 \<and>
   parComp (velocityChange turning_body (applyImpulse turning_body 180 240 (1 / 60) 1))
        (impulseDir (addScaledImpulse turning_body 180 240 (1 / 60) 1)) < 4 / 3"
proof -
  have spd: "speed (addScaledImpulse turning_body 180 240 (1 / 60) 1) > 0.001"
    by (simp add: turning_body_added)
  have over: "\<bar>perpComp (scaledImpulse 180 240 (1 / 60) 1)
        (impulseDir (addScaledImpulse turning_body 180 240 (1 / 60) 1))\<bar>
     > speed (addScaledImpulse turning_body 180 240 (1 / 60) 1) * tan (TURN_RATE_CAP * (1 / 60))"
    using tan_twentieth by (simp add: turning_body_added perpComp_def TURN_RATE_CAP_def)
  have par: "parComp (scaledImpulse 180 240 (1 / 60) 1)
        (impulseDir (addScaledImpulse turning_body 180 240 (1 / 60) 1)) = 4"
    by (simp add: turning_body_added parComp_def)
  have f: "speed (addScaledImpulse turning_body 180 240 (1 / 60) 1) * tan (TURN_RATE_CAP * (1 / 60))
        * sgn (perpComp (scaledImpulse 180 240 (1 / 60) 1)
                 (impulseDir (addScaledImpulse turning_body 180 240 (1 / 60) 1)))
        / perpComp (scaledImpulse 180 240 (1 / 60) 1)
            (impulseDir (addScaledImpulse turning_body 180 240 (1 / 60) 1))
      = tan (1 / 20) / 3"
    by (simp add: turning_body_added perpComp_def TURN_RATE_CAP_def)
  have app: "applyImpulse turning_body 180 240 (1 / 60) 1 =
      turning_body\<lparr>vel := \<lparr>vx = vx (vel turning_body) + 180 * 1 * (1 / 60) * (tan (1 / 20) / 3),
                              vy = vy (vel turning_body) + 240 * 1 * (1 / 60) * (tan (1 / 20) / 3)\<rparr>\<rparr>"
    by (rule applyImpulse_capped[OF spd over f[symmetric]])
  have "parComp (velocityChange turning_body (applyImpulse turning_body 180 240 (1 / 60) 1))
        (impulseDir (addScaledImpulse turning_body 180 240 (1 / 60) 1))
      = 4 * (tan (1 / 20) / 3)"
    by (simp add: velocityChange_def app parComp_def turning_body_added)
  then have "parComp (velocityChange turning_body (applyImpulse turning_body 180 240 (1 / 60) 1))
        (impulseDir (addScaledImpulse turning_body 180 240 (1 / 60) 1)) < 4 / 3"
    using tan_twentieth by simp
  with spd over par show ?thesis by (intro conjI)
qed

theorem applyImpulse_scales_witness:
  "velocityChange turning_body (applyImpulse turning_body 180 240 (1 / 60) 1)
     = \<lparr>vx = tan (1 / 20) / 3 * 3, vy = tan (1 / 20) / 3 * 4\<rparr> \<and>
   perpComp (velocityChange turning_body (applyImpulse turning_body 180 240 (1 / 60) 1))
        (impulseDir (addScaledImpulse turning_body 180 240 (1 / 60) 1)) = - tan (1 / 20)"
proof -
  have spd: "speed (addScaledImpulse turning_body 180 240 (1 / 60) 1) > 0.001"
    by (simp add: turning_body_added)
  have over: "\<bar>perpComp (scaledImpulse 180 240 (1 / 60) 1)
        (impulseDir (addScaledImpulse turning_body 180 240 (1 / 60) 1))\<bar>
     > speed (addScaledImpulse turning_body 180 240 (1 / 60) 1) * tan (TURN_RATE_CAP * (1 / 60))"
    using tan_twentieth by (simp add: turning_body_added perpComp_def TURN_RATE_CAP_def)
  have tan0: "0 \<le> tan (TURN_RATE_CAP * (1 / 60))"
    using tan_twentieth by (simp add: TURN_RATE_CAP_def)
  show ?thesis
    using applyImpulse_scales_whole_impulse[OF spd tan0 over]
    by (simp add: Let_def turning_body_added perpComp_def TURN_RATE_CAP_def)
qed


subsection \<open>Speed at the moment of integration\<close>

lemma normSpeed_frame [simp]:
  "pos (normSpeed e t) = pos e" "radius (normSpeed e t) = radius e"
  "speedMul (normSpeed e t) = speedMul e"
  by (simp_all add: normSpeed_def Let_def)

lemma hunterImpulse_frame [simp]:
  "pos (hunterImpulse h r dt m) = pos h" "radius (hunterImpulse h r dt m) = radius h"
  "speedMul (hunterImpulse h r dt m) = speedMul h"
  by (simp_all add: hunterImpulse_def Let_def)

lemma runnerImpulse_frame [simp]:
  "pos (fst (runnerImpulse r h g dt m)) = pos r" "radius (fst (runnerImpulse r h g dt m)) = radius r"
  "speedMul (fst (runnerImpulse r h g dt m)) = speedMul r"
  by (simp_all add: runnerImpulse_def Let_def case_prod_beta)

lemma speed_normSpeed_cases:
  "speed (normSpeed e t) = \<bar>t\<bar> \<or> speed (normSpeed e t) < 0.0001"
  unfolding normSpeed_eq
  using speed_normalizeSpeed[of e t] normalizeSpeed_noop[of e t]
  by (cases "speed e < 0.0001") auto

lemma sim_steer_chase:
  assumes "prewaitDone st" "knifeSpawned st" "knifePickedUp st"
      and "sim_steer oc ar st = Inr st'"
  shows "speedMul (ePlayer st') = speedMul (ePlayer st)"
    and "speedMul (eOpponent st') = speedMul (eOpponent st)"
  using assms
  by (auto simp add: sim_steer_def Let_def case_prod_beta split: if_splits)

lemma sim_renorm_speeds:
  "speed (ePlayer (sim_renorm s)) = \<bar>BASE_SPEED * speedMul (ePlayer s)\<bar> \<or>
   speed (ePlayer (sim_renorm s)) < 0.0001"
  "speed (eOpponent (sim_renorm s)) = \<bar>BASE_SPEED\<bar> \<or> speed (eOpponent (sim_renorm s)) < 0.0001"
  using speed_normSpeed_cases[of "ePlayer s" "BASE_SPEED * speedMul (ePlayer s)"]
        speed_normSpeed_cases[of "eOpponent s" "BASE_SPEED"]
  by (simp_all add: sim_renorm_def)

lemma sim_renorm_speedMul [simp]:
  "speedMul (ePlayer (sim_renorm s)) = speedMul (ePlayer s)"
  "speedMul (eOpponent (sim_renorm s)) = speedMul (eOpponent s)"
  by (simp_all add: sim_renorm_def)

text \<open>
  Claim C4, evaluated on the code. In the chase branch of \<^verbatim>\<open>simulateRound\<close> both
  bodies are normalised to \<open>BASE_SPEED \<times> CHASE_SPEED_MUL \<times> speedMul\<close>, but when the tick
  goes on, lines 217 and 218 normalise them again to \<open>BASE_SPEED \<times> speedMul\<close> before
  \<^verbatim>\<open>integrate\<close> runs. For every chase state whose tick does not end the round, the
  speed that is integrated is \<open>BASE_SPEED \<times> speedMul\<close> (or below the guard 0.0001), and
  so strictly less than \<open>BASE_SPEED \<times> CHASE_SPEED_MUL \<times> speedMul\<close>.
\<close>

theorem sim_chase_integrates_at_base_speed:
  assumes "prewaitDone st" and "knifeSpawned st" and "knifePickedUp st"
      and "sim_steer oc ar st = Inr st'"
      and "1 / 2 \<le> speedMul (ePlayer st)" and "speedMul (eOpponent st) = 1"
  shows "sim_tick oc ar st = Inr (sim_integrate_bounce ar (sim_renorm st')) \<and>
         (speed (ePlayer (sim_renorm st')) = BASE_SPEED * speedMul (ePlayer st) \<or>
          speed (ePlayer (sim_renorm st')) < 0.0001) \<and>
         (speed (eOpponent (sim_renorm st')) = BASE_SPEED * speedMul (eOpponent st) \<or>
          speed (eOpponent (sim_renorm st')) < 0.0001) \<and>
         speed (ePlayer (sim_renorm st')) < BASE_SPEED * CHASE_SPEED_MUL * speedMul (ePlayer st) \<and>
         speed (eOpponent (sim_renorm st')) < BASE_SPEED * CHASE_SPEED_MUL * speedMul (eOpponent st)"
proof -
  have m: "speedMul (ePlayer st') = speedMul (ePlayer st)" "speedMul (eOpponent st') = speedMul (eOpponent st)"
    using sim_steer_chase[OF assms(1-4)] by simp_all
  have t: "sim_tick oc ar st = Inr (sim_integrate_bounce ar (sim_renorm st'))"
    using assms(4) by (simp add: sim_tick_def)
  have p: "speed (ePlayer (sim_renorm st')) = BASE_SPEED * speedMul (ePlayer st) \<or>
          speed (ePlayer (sim_renorm st')) < 0.0001"
    using sim_renorm_speeds(1)[of st'] assms(5) m by (simp add: BASE_SPEED_def abs_mult)
  have q: "speed (eOpponent (sim_renorm st')) = BASE_SPEED * speedMul (eOpponent st) \<or>
          speed (eOpponent (sim_renorm st')) < 0.0001"
    using sim_renorm_speeds(2)[of st'] assms(6) by (simp add: BASE_SPEED_def)
  have p2: "speed (ePlayer (sim_renorm st')) < BASE_SPEED * CHASE_SPEED_MUL * speedMul (ePlayer st)"
    using p assms(5) by (auto simp add: BASE_SPEED_def CHASE_SPEED_MUL_def)
  have q2: "speed (eOpponent (sim_renorm st')) < BASE_SPEED * CHASE_SPEED_MUL * speedMul (eOpponent st)"
    using q assms(6) by (auto simp add: BASE_SPEED_def CHASE_SPEED_MUL_def)
  from t p q p2 q2 show ?thesis by (intro conjI)
qed

lemma sqrt_300: "sqrt 90000 = 300"
proof -
  have "sqrt (300 * 300) = \<bar>300::real\<bar>" by (rule real_sqrt_abs2)
  then show ?thesis by simp
qed

lemma chase_state0_continues: "\<exists>st'. sim_steer win_controller sim_arena0 chase_state0 = Inr st'"
  by (simp add: sim_steer_def chase_state0_def Let_def case_prod_beta dist2D_def FIXED_DT_def sqrt_300)

theorem sim_chase_base_speed_witness:
  "\<exists>st'. sim_steer win_controller sim_arena0 chase_state0 = Inr st' \<and>
     sim_tick win_controller sim_arena0 chase_state0 = Inr (sim_integrate_bounce sim_arena0 (sim_renorm st')) \<and>
     speed (ePlayer (sim_renorm st')) < BASE_SPEED * CHASE_SPEED_MUL * speedMul (ePlayer chase_state0)"
proof -
  obtain st' where s: "sim_steer win_controller sim_arena0 chase_state0 = Inr st'"
    using chase_state0_continues by blast
  have f: "prewaitDone chase_state0" "knifeSpawned chase_state0" "knifePickedUp chase_state0"
    "1 / 2 \<le> speedMul (ePlayer chase_state0)" "speedMul (eOpponent chase_state0) = 1"
    by (simp_all add: chase_state0_def)
  show ?thesis
    using sim_chase_integrates_at_base_speed[OF f(1) f(2) f(3) s f(4) f(5)] s by blast
qed

subsection \<open>Determinism of the headless round\<close>

lemma sampleOutcome_overwrites_targetWin:
  assumes "winChance a = winChance b" and "bias a = bias b"
  shows "sampleOutcome a r = sampleOutcome b r"
proof -
  have "a\<lparr>targetWin := t\<rparr> = b\<lparr>targetWin := t\<rparr>" for t
    using assms by (cases a, cases b) simp
  then show ?thesis
    using assms by (simp add: sampleOutcome_def case_prod_beta)
qed

lemma simulateRound_init_overwrites_targetWin:
  assumes "winChance a = winChance b" and "bias a = bias b"
  shows "simulateRound_init r a ar = simulateRound_init r b ar"
  by (simp add: simulateRound_init_def sampleOutcome_overwrites_targetWin[OF assms])

text \<open>
  Claim C3. The model of \<^verbatim>\<open>simulateRound\<close> is a function of the generator, the
  controller and the arena. The only state a caller can carry into a round besides the
  seed and the configuration is the controller's \<^verbatim>\<open>targetWin\<close> left by an earlier
  round, and \<^verbatim>\<open>sampleOutcome\<close> overwrites it before anything reads it. So two runs
  with fresh generators of the same seed and controllers of the same win probability and
  bias give the same boolean result, the same state after every tick (positions,
  velocities, timers, generator), the same phase sequence, and leave the controller in the
  same state.
\<close>

theorem simulateRound_deterministic:
  assumes "winChance oc1 = winChance oc2" and "bias oc1 = bias oc2"
  shows "simulateRound (Rng_new s) oc1 ar = simulateRound (Rng_new s) oc2 ar \<and>
         snd (simulateRound_trace (Rng_new s) oc1 ar) = snd (simulateRound_trace (Rng_new s) oc2 ar) \<and>
         map sim_phase (snd (simulateRound_trace (Rng_new s) oc1 ar))
           = map sim_phase (snd (simulateRound_trace (Rng_new s) oc2 ar)) \<and>
         fst (simulateRound_init (Rng_new s) oc1 ar) = fst (simulateRound_init (Rng_new s) oc2 ar)"
proof -
  have "simulateRound_init (Rng_new s) oc1 ar = simulateRound_init (Rng_new s) oc2 ar"
    by (rule simulateRound_init_overwrites_targetWin[OF assms])
  then have "simulateRound_trace (Rng_new s) oc1 ar = simulateRound_trace (Rng_new s) oc2 ar"
    by (simp add: simulateRound_trace_def)
  then show ?thesis
    using \<open>simulateRound_init (Rng_new s) oc1 ar = simulateRound_init (Rng_new s) oc2 ar\<close>
    by (simp add: simulateRound_def)
qed

theorem simulateRound_deterministic_witness:
  "simulateRound (Rng_new 42) (OutcomeController_new (1 / 2) DEFAULT_BIAS) sim_arena0
     = simulateRound (Rng_new 42) win_controller sim_arena0 \<and>
   snd (simulateRound_trace (Rng_new 42) (OutcomeController_new (1 / 2) DEFAULT_BIAS) sim_arena0)
     = snd (simulateRound_trace (Rng_new 42) win_controller sim_arena0)"
proof -
  have w: "winChance (OutcomeController_new (1 / 2) DEFAULT_BIAS) = winChance win_controller"
    and b: "bias (OutcomeController_new (1 / 2) DEFAULT_BIAS) = bias win_controller"
    by (simp_all add: OutcomeController_new_def win_controller_def)
  show ?thesis
    using simulateRound_deterministic[OF w b, of 42 sim_arena0] by simp
qed


subsection \<open>The interactive and the headless path\<close>

lemma game_move_frame [simp]:
  "g_phase (game_move dt g) = g_phase g" "g_phaseTimer (game_move dt g) = g_phaseTimer g"
  by (simp_all add: game_move_def Let_def case_prod_beta)

lemma Game_tick_prewait:
  assumes "g_phase g = prewait"
  shows "\<exists>g'. Game_tick dt g = Some g' \<and>
           g_phase g' = (if g_phaseTimer g - dt \<le> 0 then preknife else prewait) \<and>
           g_phaseTimer g' = (if g_phaseTimer g - dt \<le> 0 then Game_PREKNIFE_DURATION
                              else g_phaseTimer g - dt)"
  using assms by (simp add: Game_tick_def tickPrewait_def Let_def case_prod_beta)

lemma Game_tick_preknife:
  assumes "g_phase g = preknife"
  shows "\<exists>g'. Game_tick dt g = Some g' \<and>
           g_phase g' = (if g_phaseTimer g - dt \<le> 0 then kniferace else preknife) \<and>
           g_phaseTimer g' = g_phaseTimer g - dt"
  using assms by (simp add: Game_tick_def tickPreknife_def spawnKnife_def Let_def case_prod_beta)

lemma Game_ticks_stopped:
  "g_phase g = ended \<Longrightarrow> Game_ticks n g = Some g"
  by (cases n) auto

lemma Game_ticks_add:
  "Game_ticks (m + n) g = (case Game_ticks m g of None \<Rightarrow> None | Some g' \<Rightarrow> Game_ticks n g')"
proof (induction m arbitrary: g)
  case 0
  then show ?case by simp
next
  case (Suc m)
  show ?case
  proof (cases "g_phase g = ended")
    case True
    then show ?thesis by (simp add: Game_ticks_stopped)
  next
    case False
    then show ?thesis using Suc.IH by (simp split: option.splits)
  qed
qed

lemma Game_ticks_prewait:
  assumes "g_phase g = prewait" and "g_phaseTimer g = real (Suc k) * Game_FIXED_DT"
  shows "\<exists>g'. Game_ticks (Suc k) g = Some g' \<and> g_phase g' = preknife \<and>
           g_phaseTimer g' = Game_PREKNIFE_DURATION"
  using assms
proof (induction k arbitrary: g)
  case 0
  obtain g' where t: "Game_tick Game_FIXED_DT g = Some g'"
    "g_phase g' = (if g_phaseTimer g - Game_FIXED_DT \<le> 0 then preknife else prewait)"
    "g_phaseTimer g' = (if g_phaseTimer g - Game_FIXED_DT \<le> 0 then Game_PREKNIFE_DURATION
                              else g_phaseTimer g - Game_FIXED_DT)"
    using Game_tick_prewait[OF "0.prems"(1)] by blast
  then show ?case using "0.prems" by simp
next
  case (Suc k)
  obtain g' where t: "Game_tick Game_FIXED_DT g = Some g'"
    "g_phase g' = (if g_phaseTimer g - Game_FIXED_DT \<le> 0 then preknife else prewait)"
    "g_phaseTimer g' = (if g_phaseTimer g - Game_FIXED_DT \<le> 0 then Game_PREKNIFE_DURATION
                              else g_phaseTimer g - Game_FIXED_DT)"
    using Game_tick_prewait[OF Suc.prems(1)] by blast
  have pos: "\<not> g_phaseTimer g - Game_FIXED_DT \<le> 0"
    using Suc.prems(2) by (simp add: Game_FIXED_DT_def algebra_simps)
  have "g_phase g' = prewait" "g_phaseTimer g' = real (Suc k) * Game_FIXED_DT"
    using t pos Suc.prems(2) by (simp_all add: algebra_simps)
  from Suc.IH[OF this] obtain g'' where
    "Game_ticks (Suc k) g' = Some g''" "g_phase g'' = preknife"
    "g_phaseTimer g'' = Game_PREKNIFE_DURATION" by blast
  then show ?case using t(1) Suc.prems(1) by simp
qed

lemma Game_ticks_preknife:
  assumes "g_phase g = preknife" and "g_phaseTimer g = real (Suc k) * Game_FIXED_DT"
  shows "\<exists>g'. Game_ticks (Suc k) g = Some g' \<and> g_phase g' = kniferace"
  using assms
proof (induction k arbitrary: g)
  case 0
  obtain g' where t: "Game_tick Game_FIXED_DT g = Some g'"
    "g_phase g' = (if g_phaseTimer g - Game_FIXED_DT \<le> 0 then kniferace else preknife)"
    "g_phaseTimer g' = g_phaseTimer g - Game_FIXED_DT"
    using Game_tick_preknife[OF "0.prems"(1)] by blast
  then show ?case using "0.prems" by simp
next
  case (Suc k)
  obtain g' where t: "Game_tick Game_FIXED_DT g = Some g'"
    "g_phase g' = (if g_phaseTimer g - Game_FIXED_DT \<le> 0 then kniferace else preknife)"
    "g_phaseTimer g' = g_phaseTimer g - Game_FIXED_DT"
    using Game_tick_preknife[OF Suc.prems(1)] by blast
  have pos: "\<not> g_phaseTimer g - Game_FIXED_DT \<le> 0"
    using Suc.prems(2) by (simp add: Game_FIXED_DT_def algebra_simps)
  have "g_phase g' = preknife" "g_phaseTimer g' = real (Suc k) * Game_FIXED_DT"
    using t pos Suc.prems(2) by (simp_all add: algebra_simps)
  from Suc.IH[OF this] obtain g'' where
    "Game_ticks (Suc k) g' = Some g''" "g_phase g'' = kniferace" by blast
  then show ?case using t(1) Suc.prems(1) by simp
qed

lemma onPlay_starts_prewait:
  "\<exists>g. onPlay (Game_new ar) 10 ''arafat'' p s = Some g \<and> g_phase g = prewait \<and>
        g_phaseTimer g = Game_PREWAIT_DURATION"
  by (simp add: onPlay_def Game_new_def startRound_def cleanupKnife_def DICTATOR_CONFIGS_def
      Let_def case_prod_beta)

lemma Game_reaches_kniferace:
  "\<exists>g g'. onPlay (Game_new ar) 10 ''arafat'' p s = Some g \<and> Game_ticks 150 g = Some g' \<and>
     g_phase g' = kniferace"
proof -
  obtain g where g: "onPlay (Game_new ar) 10 ''arafat'' p s = Some g" "g_phase g = prewait"
    "g_phaseTimer g = Game_PREWAIT_DURATION"
    using onPlay_starts_prewait by blast
  have "g_phaseTimer g = real (Suc 59) * Game_FIXED_DT"
    using g(3) by (simp add: Game_PREWAIT_DURATION_def Game_FIXED_DT_def)
  from Game_ticks_prewait[OF g(2) this] obtain g1 where g1:
    "Game_ticks 60 g = Some g1" "g_phase g1 = preknife" "g_phaseTimer g1 = Game_PREKNIFE_DURATION"
    by auto
  have "g_phaseTimer g1 = real (Suc 89) * Game_FIXED_DT"
    using g1(3) by (simp add: Game_PREKNIFE_DURATION_def Game_FIXED_DT_def)
  from Game_ticks_preknife[OF g1(2) this] obtain g2 where g2:
    "Game_ticks 90 g1 = Some g2" "g_phase g2 = kniferace"
    by auto
  have "Game_ticks (60 + 90) g = Some g2"
    unfolding Game_ticks_add using g1(1) g2(1) by simp
  then show ?thesis using g(1) g2(2) by simp
qed

lemma normalizeSpeed_more [simp]:
  "baseSpeed (normalizeSpeed d t) = baseSpeed d" "speedMul (normalizeSpeed d t) = speedMul d"
  "role (normalizeSpeed d t) = role d"
  by (simp_all add: normalizeSpeed_def Let_def)

lemma role_applyImpulse [simp]: "role (applyImpulse d ix iy dt m) = role d"
  by (simp add: applyImpulse_def addScaledImpulse_def Let_def)

lemma role_steering [simp]:
  "role (applyKnifeSeekSteering d kx ky dt b) = role d"
  "role (applyHunterSteering d t dt m) = role d"
  "role (fst (applyRunnerSteering d t r dt m)) = role d"
  by (simp_all add: applyKnifeSeekSteering_def applyHunterSteering_def applyRunnerSteering_def
      Let_def case_prod_beta)

lemma role_physics [simp]:
  "role (integrateEntity d dt) = role d"
  "role (bounceWalls d ar) = role d"
  "role (fst (snd (bounceEntities d d'))) = role d"
  "role (snd (snd (bounceEntities d' d))) = role d"
  by (simp_all add: integrateEntity_def bounceWalls_def bounceWallsX_def bounceWallsY_def
      bounceEntities_def Let_def)

lemma roles_assigned_game_move [simp]: "roles_assigned (game_move dt g) = roles_assigned g"
  by (simp add: roles_assigned_def game_move_def game_renorm_def Let_def case_prod_beta)

lemma roles_assigned_assignRoles [simp]: "roles_assigned (assignRoles i g)"
  by (simp add: roles_assigned_def assignRoles_def Let_def)

lemma after_knife_spawn_game_move [simp]:
  "after_knife_spawn (game_move dt g) = after_knife_spawn g"
  by (simp add: after_knife_spawn_def)

lemma tickKnifeRace_after: 
  "g_phase g = kniferace \<Longrightarrow> after_knife_spawn (tickKnifeRace dt g)"
  by (simp add: tickKnifeRace_def after_knife_spawn_def Let_def assignRoles_def roles_assigned_def
      split: option.splits)

lemma tickChase_after:
  assumes "g_phase g = chase" and "roles_assigned g"
  shows "\<exists>g'. tickChase dt g = Some g' \<and> after_knife_spawn g'"
  using assms
  by (auto simp add: tickChase_def after_knife_spawn_def roles_assigned_def endRound_def Let_def
      case_prod_beta)

lemma Game_tick_after_knife_spawn:
  assumes "after_knife_spawn g"
  shows "\<exists>g'. Game_tick dt g = Some g' \<and> after_knife_spawn g'"
proof -
  consider "g_phase g = kniferace" | "g_phase g = ended" | "g_phase g = chase" "roles_assigned g"
    using assms by (auto simp add: after_knife_spawn_def)
  then show ?thesis
  proof cases
    case 1
    then show ?thesis
      using tickKnifeRace_after[OF 1, of dt] by (simp add: Game_tick_def)
  next
    case 2
    then show ?thesis using assms by (simp add: Game_tick_def)
  next
    case 3
    obtain g1 where "tickChase dt g = Some g1" "after_knife_spawn g1"
      using tickChase_after[OF 3] by blast
    then show ?thesis using 3 by (simp add: Game_tick_def)
  qed
qed

lemma Game_ticks_after_knife_spawn:
  assumes "after_knife_spawn g"
  shows "\<exists>g'. Game_ticks n g = Some g' \<and> after_knife_spawn g'"
  using assms
proof (induction n arbitrary: g)
  case 0
  then show ?case by simp
next
  case (Suc n)
  obtain g1 where g1: "Game_tick Game_FIXED_DT g = Some g1" "after_knife_spawn g1"
    using Game_tick_after_knife_spawn[OF Suc.prems] by blast
  from Suc.IH[OF g1(2)] obtain g2 where "Game_ticks n g1 = Some g2" "after_knife_spawn g2"
    by blast
  then show ?case using g1 Suc.prems by auto
qed

lemma Game_past_preknife:
  "\<exists>g g'. onPlay (Game_new ar) 10 ''arafat'' p s = Some g \<and> Game_ticks (150 + n) g = Some g' \<and>
     (g_phase g' = kniferace \<or> g_phase g' = chase \<or> g_phase g' = ended)"
proof -
  obtain g g1 where g: "onPlay (Game_new ar) 10 ''arafat'' p s = Some g"
    "Game_ticks 150 g = Some g1" "g_phase g1 = kniferace"
    using Game_reaches_kniferace by blast
  then have "after_knife_spawn g1" by (simp add: after_knife_spawn_def)
  from Game_ticks_after_knife_spawn[OF this, of n] obtain g2 where
    g2: "Game_ticks n g1 = Some g2" "after_knife_spawn g2" by blast
  have "Game_ticks (150 + n) g = Some g2"
    unfolding Game_ticks_add using g(2) g2(1) by simp
  then show ?thesis using g(1) g2(2) by (auto simp add: after_knife_spawn_def)
qed

lemma sim_post_frame [simp]:
  "prewaitDone (sim_integrate_bounce ar (sim_renorm st)) = prewaitDone st"
  "knifeSpawned (sim_integrate_bounce ar (sim_renorm st)) = knifeSpawned st"
  "knifePickedUp (sim_integrate_bounce ar (sim_renorm st)) = knifePickedUp st"
  "prewaitTimer (sim_integrate_bounce ar (sim_renorm st)) = prewaitTimer st"
  "preknifeDone2Timer (sim_integrate_bounce ar (sim_renorm st)) = preknifeDone2Timer st"
  by (simp_all add: sim_integrate_bounce_def sim_renorm_def Let_def case_prod_beta)

lemma sim_tick_prewait:
  assumes "\<not> prewaitDone st"
  shows "\<exists>st'. sim_tick oc ar st = Inr st' \<and>
           prewaitDone st' = (prewaitTimer st - FIXED_DT \<le> 0) \<and>
           prewaitTimer st' = prewaitTimer st - FIXED_DT \<and>
           knifeSpawned st' = knifeSpawned st \<and>
           knifePickedUp st' = knifePickedUp st \<and>
           preknifeDone2Timer st' = preknifeDone2Timer st"
  using assms by (simp add: sim_tick_def sim_steer_def Let_def case_prod_beta)

lemma sim_tick_preknife:
  assumes "prewaitDone st" and "\<not> knifeSpawned st"
  shows "\<exists>st'. sim_tick oc ar st = Inr st' \<and>
           prewaitDone st' \<and>
           knifeSpawned st' = (preknifeDone2Timer st - FIXED_DT \<le> 0) \<and>
           preknifeDone2Timer st' = preknifeDone2Timer st - FIXED_DT \<and>
           knifePickedUp st' = knifePickedUp st"
  using assms by (simp add: sim_tick_def sim_steer_def Let_def case_prod_beta)

lemma sim_ticks_add:
  "sim_ticks (m + n) oc ar st =
     (case sim_ticks m oc ar st of None \<Rightarrow> None | Some st' \<Rightarrow> sim_ticks n oc ar st')"
  by (induction m arbitrary: st) (auto split: sum.splits)

lemma sim_ticks_prewait:
  assumes "\<not> prewaitDone st" and "prewaitTimer st = real (Suc k) * FIXED_DT"
  shows "\<exists>st'. sim_ticks (Suc k) oc ar st = Some st' \<and> prewaitDone st' \<and>
           knifeSpawned st' = knifeSpawned st \<and> knifePickedUp st' = knifePickedUp st \<and>
           preknifeDone2Timer st' = preknifeDone2Timer st"
  using assms
proof (induction k arbitrary: st)
  case 0
  obtain st' where t: "sim_tick oc ar st = Inr st'"
    "prewaitDone st' = (prewaitTimer st - FIXED_DT \<le> 0)"
    "prewaitTimer st' = prewaitTimer st - FIXED_DT"
    "knifeSpawned st' = knifeSpawned st" "knifePickedUp st' = knifePickedUp st"
    "preknifeDone2Timer st' = preknifeDone2Timer st"
    using sim_tick_prewait[OF "0.prems"(1)] by blast
  then show ?case using "0.prems"(2) by simp
next
  case (Suc k)
  obtain st' where t: "sim_tick oc ar st = Inr st'"
    "prewaitDone st' = (prewaitTimer st - FIXED_DT \<le> 0)"
    "prewaitTimer st' = prewaitTimer st - FIXED_DT"
    "knifeSpawned st' = knifeSpawned st" "knifePickedUp st' = knifePickedUp st"
    "preknifeDone2Timer st' = preknifeDone2Timer st"
    using sim_tick_prewait[OF Suc.prems(1)] by blast
  have pos: "\<not> prewaitTimer st - FIXED_DT \<le> 0"
    using Suc.prems(2) by (simp add: FIXED_DT_def algebra_simps)
  have "\<not> prewaitDone st'" "prewaitTimer st' = real (Suc k) * FIXED_DT"
    using t pos Suc.prems(2) by (simp_all add: algebra_simps)
  from Suc.IH[OF this] obtain st'' where
    "sim_ticks (Suc k) oc ar st' = Some st''" "prewaitDone st''"
    "knifeSpawned st'' = knifeSpawned st'" "knifePickedUp st'' = knifePickedUp st'"
    "preknifeDone2Timer st'' = preknifeDone2Timer st'" by blast
  then show ?case using t by simp
qed

lemma sim_ticks_preknife_still:
  assumes "prewaitDone st" and "\<not> knifeSpawned st" and "real k * FIXED_DT < preknifeDone2Timer st"
  shows "\<exists>st'. sim_ticks k oc ar st = Some st' \<and> prewaitDone st' \<and> \<not> knifeSpawned st' \<and>
           knifePickedUp st' = knifePickedUp st"
  using assms
proof (induction k arbitrary: st)
  case 0
  then show ?case by simp
next
  case (Suc k)
  obtain st' where t: "sim_tick oc ar st = Inr st'" "prewaitDone st'"
    "knifeSpawned st' = (preknifeDone2Timer st - FIXED_DT \<le> 0)"
    "preknifeDone2Timer st' = preknifeDone2Timer st - FIXED_DT"
    "knifePickedUp st' = knifePickedUp st"
    using sim_tick_preknife[OF Suc.prems(1,2)] by blast
  have k0: "0 \<le> real k * FIXED_DT" by (simp add: FIXED_DT_def)
  have lt: "real k * FIXED_DT < preknifeDone2Timer st - FIXED_DT"
    using Suc.prems(3) by (simp add: algebra_simps)
  then have "\<not> knifeSpawned st'" using t(3) k0 by simp
  moreover have "real k * FIXED_DT < preknifeDone2Timer st'" using lt t(4) by simp
  ultimately obtain st'' where
    "sim_ticks k oc ar st' = Some st''" "prewaitDone st''" "\<not> knifeSpawned st''"
    "knifePickedUp st'' = knifePickedUp st'"
    using Suc.IH[OF t(2)] by blast
  then show ?case using t by simp
qed

lemma simulateRound_init_flags:
  "\<not> prewaitDone (snd (simulateRound_init r oc ar))"
  "\<not> knifeSpawned (snd (simulateRound_init r oc ar))"
  "\<not> knifePickedUp (snd (simulateRound_init r oc ar))"
  "prewaitTimer (snd (simulateRound_init r oc ar)) = PREWAIT_DURATION"
  "preknifeDone2Timer (snd (simulateRound_init r oc ar)) = PREKNIFE_DURATION"
  by (simp_all add: simulateRound_init_def Let_def case_prod_beta)

lemma sim_still_preknife_until_240:
  assumes "n < 180"
  shows "\<exists>st'. sim_ticks (60 + n) (fst (simulateRound_init r oc ar)) ar
            (snd (simulateRound_init r oc ar)) = Some st' \<and> sim_phase st' = preknife"
proof -
  define oc' where "oc' = fst (simulateRound_init r oc ar)"
  define st0 where "st0 = snd (simulateRound_init r oc ar)"
  have f: "\<not> prewaitDone st0" "\<not> knifeSpawned st0" "prewaitTimer st0 = PREWAIT_DURATION"
    "preknifeDone2Timer st0 = PREKNIFE_DURATION"
    by (simp_all add: st0_def simulateRound_init_flags)
  have "prewaitTimer st0 = real (Suc 59) * FIXED_DT"
    using f(3) by (simp add: PREWAIT_DURATION_def FIXED_DT_def)
  from sim_ticks_prewait[OF f(1) this, of oc' ar] obtain st1 where s1:
    "sim_ticks 60 oc' ar st0 = Some st1" "prewaitDone st1" "knifeSpawned st1 = knifeSpawned st0"
    "preknifeDone2Timer st1 = preknifeDone2Timer st0"
    by auto
  have "real n * FIXED_DT < preknifeDone2Timer st1"
    using s1(4) f(4) assms by (simp add: PREKNIFE_DURATION_def FIXED_DT_def)
  from sim_ticks_preknife_still[OF s1(2) _ this, of oc' ar] s1(3) f(2) obtain st2 where s2:
    "sim_ticks n oc' ar st1 = Some st2" "prewaitDone st2" "\<not> knifeSpawned st2"
    by auto
  have "sim_ticks (60 + n) oc' ar st0 = Some st2"
    unfolding sim_ticks_add using s1(1) s2(1) by simp
  then show ?thesis using s2 by (simp add: sim_phase_def oc'_def st0_def)
qed

lemma Rng_word_next: "Rng_word (snd (Rng_next r)) = Rng_word r + 0x6d2b79f5"
  by (simp add: Rng_word_def Rng_next_def Let_def)

lemma Rng_word_draws [simp]:
  "Rng_word (snd (Rng_range r a b)) = Rng_word r + 0x6d2b79f5"
  "Rng_word (snd (Rng_int r a b)) = Rng_word r + 0x6d2b79f5"
  "Rng_word (snd (sampleOutcome oc r)) = Rng_word r + 0x6d2b79f5"
  "Rng_word (snd (pickOpponent r pid)) = Rng_word r + 0x6d2b79f5"
  by (simp_all add: Rng_range_def Rng_int_def sampleOutcome_def pickOpponent_def Let_def
      case_prod_beta Rng_word_next)

lemma sim_init_draws:
  "Rng_word (rng (snd (simulateRound_init r oc ar))) = Rng_word r + 3 * 0x6d2b79f5"
  by (simp add: simulateRound_init_def Let_def case_prod_beta)

lemma onPlay_draws:
  "map_option (\<lambda>g. Rng_word (g_rng g)) (onPlay (Game_new ar) 10 ''arafat'' p s)
     = Some (Rng_word (Rng_new s) + 4 * 0x6d2b79f5)"
  by (simp add: onPlay_def Game_new_def startRound_def cleanupKnife_def DICTATOR_CONFIGS_def
      Let_def case_prod_beta)

lemma setup_draws_differ:
  "map_option (\<lambda>g. Rng_word (g_rng g)) (onPlay (Game_new ar) 10 ''arafat'' p s)
     \<noteq> Some (Rng_word (rng (snd (simulateRound_init (Rng_new s) oc ar))))"
  by (simp add: onPlay_draws sim_init_draws)


text \<open>
  Claim C2, evaluated on the code. For every seed \<open>s\<close>, win probability \<open>p\<close> and arena,
  a round started by \<^verbatim>\<open>_onPlay\<close> and stepped by \<^verbatim>\<open>_tick\<close> is in the knife
  race after 150 fixed steps (60 of prewait and 90 of preknife, in real arithmetic) and in
  the knife race, the chase or ended after 200, while the loop of \<^verbatim>\<open>simulateRound\<close>
  is still in its preknife wander after 150 and after 200 ticks: the two files disagree on
  \<^verbatim>\<open>PREKNIFE_DURATION\<close> (1.5 against 3.0). The generators are out of step even
  before the first tick: the interactive path has drawn four numbers (outcome, opponent
  pick, two angles), the headless path three.
\<close>

theorem interactive_and_headless_phases_diverge:
  "map_option g_phase
     (case onPlay (Game_new ar) 10 ''arafat'' p s of None \<Rightarrow> None | Some g \<Rightarrow> Game_ticks 150 g)
     = Some kniferace \<and>
   map_option sim_phase
     (case simulateRound_init (Rng_new s) (OutcomeController_new p DEFAULT_BIAS) ar of
        (oc, st0) \<Rightarrow> sim_ticks 150 oc ar st0)
     = Some preknife \<and>
   map_option g_phase
     (case onPlay (Game_new ar) 10 ''arafat'' p s of None \<Rightarrow> None | Some g \<Rightarrow> Game_ticks 200 g)
     \<in> {Some kniferace, Some chase, Some ended} \<and>
   map_option sim_phase
     (case simulateRound_init (Rng_new s) (OutcomeController_new p DEFAULT_BIAS) ar of
        (oc, st0) \<Rightarrow> sim_ticks 200 oc ar st0)
     = Some preknife \<and>
   Game_PREKNIFE_DURATION \<noteq> PREKNIFE_DURATION \<and>
   map_option (\<lambda>g. Rng_word (g_rng g)) (onPlay (Game_new ar) 10 ''arafat'' p s)
     \<noteq> Some (Rng_word (rng (snd (simulateRound_init (Rng_new s)
          (OutcomeController_new p DEFAULT_BIAS) ar))))"
proof -
  define init where "init = simulateRound_init (Rng_new s) (OutcomeController_new p DEFAULT_BIAS) ar"
  obtain g g1 where g: "onPlay (Game_new ar) 10 ''arafat'' p s = Some g"
    and g1: "Game_ticks 150 g = Some g1" "g_phase g1 = kniferace"
    using Game_reaches_kniferace by blast
  obtain h h2 where h: "onPlay (Game_new ar) 10 ''arafat'' p s = Some h"
    and h2: "Game_ticks (150 + 50) h = Some h2"
      "g_phase h2 = kniferace \<or> g_phase h2 = chase \<or> g_phase h2 = ended"
    using Game_past_preknife[of ar p s 50] by blast
  have hg: "h = g" using g h by simp
  obtain st1 where st1: "sim_ticks (60 + 90) (fst init) ar (snd init) = Some st1"
    "sim_phase st1 = preknife"
    using sim_still_preknife_until_240[of 90] unfolding init_def by fastforce
  obtain st2 where st2: "sim_ticks (60 + 140) (fst init) ar (snd init) = Some st2"
    "sim_phase st2 = preknife"
    using sim_still_preknife_until_240[of 140] unfolding init_def by fastforce
  have a: "map_option g_phase
     (case onPlay (Game_new ar) 10 ''arafat'' p s of None \<Rightarrow> None | Some g \<Rightarrow> Game_ticks 150 g)
     = Some kniferace"
    using g g1 by simp
  have b: "map_option sim_phase (case init of (oc, st0) \<Rightarrow> sim_ticks 150 oc ar st0) = Some preknife"
    using st1 by (simp add: case_prod_beta)
  have c: "map_option g_phase
     (case onPlay (Game_new ar) 10 ''arafat'' p s of None \<Rightarrow> None | Some g \<Rightarrow> Game_ticks 200 g)
     \<in> {Some kniferace, Some chase, Some ended}"
    using g h2 hg by auto
  have d: "map_option sim_phase (case init of (oc, st0) \<Rightarrow> sim_ticks 200 oc ar st0) = Some preknife"
    using st2 by (simp add: case_prod_beta)
  have e: "Game_PREKNIFE_DURATION \<noteq> PREKNIFE_DURATION"
    by (simp add: Game_PREKNIFE_DURATION_def PREKNIFE_DURATION_def)
  have f: "map_option (\<lambda>g. Rng_word (g_rng g)) (onPlay (Game_new ar) 10 ''arafat'' p s)
     \<noteq> Some (Rng_word (rng (snd init)))"
    unfolding init_def by (rule setup_draws_differ)
  from a b c d e f show ?thesis unfolding init_def by (intro conjI)
qed

subsection \<open>Further facts about the two paths\<close>

text \<open>
  On the interactive path \<^verbatim>\<open>_assignRoles\<close> raises \<^verbatim>\<open>baseSpeed\<close> to the chase
  speed, and \<^verbatim>\<open>_tick\<close> normalises each dictator to \<open>baseSpeed \<times> speedMul\<close> right
  before integrating it. In the batch runner the payout is the win count times
  \<open>betAmount \<times> 1.9\<close>, so the realised RTP is 1.9 times the observed win rate whenever
  both quotients are defined.
\<close>

lemma assignRoles_baseSpeed:
  "baseSpeed (fst (g_dictators (assignRoles i g))) = Game_BASE_SPEED * Game_CHASE_SPEED_MUL"
  "baseSpeed (snd (g_dictators (assignRoles i g))) = Game_BASE_SPEED * Game_CHASE_SPEED_MUL"
  by (simp_all add: assignRoles_def Let_def)

lemma speed_normalizeSpeed_cases:
  "speed (normalizeSpeed e t) = \<bar>t\<bar> \<or> speed (normalizeSpeed e t) < 0.0001"
proof (cases "speed e < 0.0001")
  case True
  then show ?thesis by (simp add: normalizeSpeed_noop)
next
  case False
  then show ?thesis by (simp add: speed_normalizeSpeed)
qed

lemma game_renorm_speeds:
  "speed (fst (game_renorm g)) = \<bar>baseSpeed (fst (g_dictators g)) * speedMul (fst (g_dictators g))\<bar> \<or>
   speed (fst (game_renorm g)) < 0.0001"
  "speed (snd (game_renorm g)) = \<bar>baseSpeed (snd (g_dictators g)) * speedMul (snd (g_dictators g))\<bar> \<or>
   speed (snd (game_renorm g)) < 0.0001"
  using speed_normalizeSpeed_cases[of "fst (g_dictators g)" "currentSpeed (fst (g_dictators g))"]
        speed_normalizeSpeed_cases[of "snd (g_dictators g)" "currentSpeed (snd (g_dictators g))"]
  by (simp_all add: game_renorm_def currentSpeed_def)

lemma runSimulation_loop_payout:
  "runSimulation_loop n i baseSeed bet ar oc (w, real w * (bet * PAYOUT_MUL)) = (w', pay) \<Longrightarrow>
   pay = real w' * (bet * PAYOUT_MUL)"
proof (induction n arbitrary: i oc w)
  case 0
  then show ?case by auto
next
  case (Suc n)
  show ?case
  proof (cases "simulateRound (Rng_new (baseSeed + int i)) oc ar")
    case True
    have "real w * (bet * PAYOUT_MUL) + bet * PAYOUT_MUL = real (w + 1) * (bet * PAYOUT_MUL)"
      by (simp add: algebra_simps)
    with Suc.prems True show ?thesis
      using Suc.IH[of "Suc i" "fst (simulateRound_init (Rng_new (baseSeed + int i)) oc ar)" "w + 1"]
      by (simp add: Let_def)
  next
    case False
    with Suc.prems show ?thesis
      using Suc.IH[of "Suc i" "fst (simulateRound_init (Rng_new (baseSeed + int i)) oc ar)" w]
      by (simp add: Let_def)
  qed
qed

lemma runSimulation_quotients:
  "totalBet (runSimulation n p bet baseSeed) = real n * bet \<and>
   totalPayout (runSimulation n p bet baseSeed)
     = real (wins (runSimulation n p bet baseSeed)) * (bet * PAYOUT_MUL) \<and>
   observedWinRate (runSimulation n p bet baseSeed)
     = js_div (real (wins (runSimulation n p bet baseSeed))) (real n) \<and>
   rtp (runSimulation n p bet baseSeed)
     = js_div (real (wins (runSimulation n p bet baseSeed)) * (bet * PAYOUT_MUL)) (real n * bet) \<and>
   expectedRtp (runSimulation n p bet baseSeed) = PAYOUT_MUL * p"
proof -
  define ar where "ar = \<lparr>left = 0, right = ARENA_SIZE, top = 0, bottom = ARENA_SIZE,
                   centerX = ARENA_SIZE / 2, centerY = ARENA_SIZE / 2\<rparr>"
  obtain w pay where l: "runSimulation_loop n 0 baseSeed bet ar (OutcomeController_new p DEFAULT_BIAS) (0, 0) = (w, pay)"
    by (cases "runSimulation_loop n 0 baseSeed bet ar (OutcomeController_new p DEFAULT_BIAS) (0, 0)")
  have "pay = real w * (bet * PAYOUT_MUL)"
    using runSimulation_loop_payout[of n 0 baseSeed bet ar "OutcomeController_new p DEFAULT_BIAS" 0 w pay] l
    by simp
  then show ?thesis
    using l by (simp add: runSimulation_def Let_def ar_def)
qed

lemma runSimulation_rtp:
  assumes "0 < n" and "bet \<noteq> 0"
  shows "observedWinRate (runSimulation n p bet baseSeed)
           = Some (real (wins (runSimulation n p bet baseSeed)) / real n)"
    and "rtp (runSimulation n p bet baseSeed)
           = Some (PAYOUT_MUL * (real (wins (runSimulation n p bet baseSeed)) / real n))"
  using assms runSimulation_quotients[of n p bet baseSeed]
  by (simp_all add: js_div_def)

lemma runSimulation_zero_bet:
  "rtp (runSimulation n p 0 baseSeed) = None"
  "totalBet (runSimulation n p 0 baseSeed) = 0"
  "totalPayout (runSimulation n p 0 baseSeed) = 0"
  using runSimulation_quotients[of n p 0 baseSeed]
  by (simp_all add: js_div_def)

text \<open>
  Claim C1, evaluated on the code. What \<^verbatim>\<open>runSimulation\<close> returns is tied to its
  win count: at the module's own first configuration (100,000 rounds, \<open>p = 0.1\<close>, bet 10,
  seed 42) the expected RTP is \<open>0.19\<close>, the observed win rate is \<open>wins / 100000\<close> and
  the RTP is \<open>1.9 \<times> wins / 100000\<close>, so the RTP is calibrated only if the win count is.
  The win count itself is the outcome of 100,000 simulated rounds and is not computed
  here. For the bet amount 0 the claim fails for every \<open>p\<close> and seed whatever the win
  count: nothing is wagered and nothing paid, and the RTP is \<open>0 / 0\<close>.
\<close>

theorem runSimulation_rtp_tied_to_wins_and_undefined_at_zero_bet:
  "expectedRtp (runSimulation 100000 (1 / 10) 10 42) = 19 / 100 \<and>
   observedWinRate (runSimulation 100000 (1 / 10) 10 42)
     = Some (real (wins (runSimulation 100000 (1 / 10) 10 42)) / 100000) \<and>
   rtp (runSimulation 100000 (1 / 10) 10 42)
     = Some (PAYOUT_MUL * (real (wins (runSimulation 100000 (1 / 10) 10 42)) / 100000)) \<and>
   totalBet (runSimulation 100000 p 0 s) = 0 \<and>
   totalPayout (runSimulation 100000 p 0 s) = 0 \<and>
   rtp (runSimulation 100000 p 0 s) = None"
proof -
  have e: "expectedRtp (runSimulation 100000 (1 / 10) 10 42) = 19 / 100"
    using runSimulation_quotients[of 100000 "1 / 10" 10 42] by (simp add: PAYOUT_MUL_def)
  have o: "observedWinRate (runSimulation 100000 (1 / 10) 10 42)
     = Some (real (wins (runSimulation 100000 (1 / 10) 10 42)) / 100000)"
    using runSimulation_rtp(1)[of 100000 10 "1 / 10" 42] by simp
  have r: "rtp (runSimulation 100000 (1 / 10) 10 42)
     = Some (PAYOUT_MUL * (real (wins (runSimulation 100000 (1 / 10) 10 42)) / 100000))"
    using runSimulation_rtp(2)[of 100000 10 "1 / 10" 42] by simp
  from e o r runSimulation_zero_bet[of 100000 p s] show ?thesis by (intro conjI)
qed

text \<open>
  The controller object shared by the rounds of a batch does not carry anything from one
  round into the next: the win count of the loop is the number of round indices whose
  round, run on its own with any controller of the same configuration, is won.
\<close>

lemma simulateRound_init_keeps_config:
  "winChance (fst (simulateRound_init r oc ar)) = winChance oc"
  "bias (fst (simulateRound_init r oc ar)) = bias oc"
  by (simp_all add: simulateRound_init_def sampleOutcome_def Let_def case_prod_beta)

lemma simulateRound_overwrites_targetWin:
  assumes "winChance a = winChance b" and "bias a = bias b"
  shows "simulateRound r a ar = simulateRound r b ar"
  by (simp add: simulateRound_def simulateRound_trace_def
      simulateRound_init_overwrites_targetWin[OF assms])

lemma runSimulation_loop_wins:
  assumes "winChance oc = winChance oc0" and "bias oc = bias oc0"
  shows "fst (runSimulation_loop n i baseSeed bet ar oc (w, pay)) =
         w + length (filter (\<lambda>j. simulateRound (Rng_new (baseSeed + int j)) oc0 ar) [i ..< i + n])"
  using assms
proof (induction n arbitrary: i oc w pay)
  case 0
  then show ?case by simp
next
  case (Suc n)
  define oc' where "oc' = fst (simulateRound_init (Rng_new (baseSeed + int i)) oc ar)"
  have cfg: "winChance oc' = winChance oc0" "bias oc' = bias oc0"
    using Suc.prems by (simp_all add: oc'_def simulateRound_init_keeps_config)
  have won: "simulateRound (Rng_new (baseSeed + int i)) oc ar
             = simulateRound (Rng_new (baseSeed + int i)) oc0 ar"
    by (rule simulateRound_overwrites_targetWin[OF Suc.prems])
  have up: "[i ..< i + Suc n] = i # [Suc i ..< Suc i + n]"
    by (simp add: upt_rec)
  show ?case
    unfolding up
    using Suc.IH[OF cfg, of "Suc i"] won
    by (simp add: Let_def oc'_def)
qed

text \<open>
  The loop of \<^verbatim>\<open>_update\<close> with \<open>n\<close> steps in the accumulator makes exactly the
  \<open>n\<close> fixed steps of \<open>Game_ticks\<close> (the accumulator apart).
\<close>

lemma tick_parts_accumulator:
  "tickPrewait dt (g\<lparr>g_accumulator := a\<rparr>) = (tickPrewait dt g)\<lparr>g_accumulator := a\<rparr>"
  "tickPreknife dt (g\<lparr>g_accumulator := a\<rparr>) = (tickPreknife dt g)\<lparr>g_accumulator := a\<rparr>"
  "tickKnifeRace dt (g\<lparr>g_accumulator := a\<rparr>) = (tickKnifeRace dt g)\<lparr>g_accumulator := a\<rparr>"
  "tickChase dt (g\<lparr>g_accumulator := a\<rparr>)
     = map_option (\<lambda>g'. g'\<lparr>g_accumulator := a\<rparr>) (tickChase dt g)"
  "game_move dt (g\<lparr>g_accumulator := a\<rparr>) = (game_move dt g)\<lparr>g_accumulator := a\<rparr>"
  by (simp_all add: tickPrewait_def tickPreknife_def spawnKnife_def tickKnifeRace_def
      assignRoles_def tickChase_def endRound_def game_move_def game_renorm_def
      Let_def case_prod_beta split: option.splits)

lemma Game_tick_accumulator:
  "Game_tick dt (g\<lparr>g_accumulator := a\<rparr>) = map_option (\<lambda>g'. g'\<lparr>g_accumulator := a\<rparr>) (Game_tick dt g)"
proof (cases "g_phase g")
  case chase
  then show ?thesis
    by (cases "tickChase dt g") (simp_all add: Game_tick_def tick_parts_accumulator)
qed (simp_all add: Game_tick_def tick_parts_accumulator)

lemma Game_tick_keeps_accumulator:
  assumes "Game_tick dt g = Some g1"
  shows "g_accumulator g1 = g_accumulator g"
proof -
  have "Game_tick dt (g\<lparr>g_accumulator := g_accumulator g\<rparr>) = Some g1"
    using assms by simp
  then have "g1\<lparr>g_accumulator := g_accumulator g\<rparr> = g1"
    unfolding Game_tick_accumulator using assms by simp
  then have "g_accumulator (g1\<lparr>g_accumulator := g_accumulator g\<rparr>) = g_accumulator g1"
    by simp
  then show ?thesis by simp
qed

lemma Game_ticks_accumulator:
  "Game_ticks n (g\<lparr>g_accumulator := a\<rparr>) = map_option (\<lambda>g'. g'\<lparr>g_accumulator := a\<rparr>) (Game_ticks n g)"
proof (induction n arbitrary: g)
  case 0
  then show ?case by simp
next
  case (Suc n)
  show ?case
  proof (cases "g_phase g = ended")
    case True
    then show ?thesis by simp
  next
    case False
    show ?thesis
    proof (cases "Game_tick Game_FIXED_DT g")
      case None
      then show ?thesis using False by (simp add: Game_tick_accumulator)
    next
      case (Some g1)
      then show ?thesis using False Suc.IH[of g1] by (simp add: Game_tick_accumulator)
    qed
  qed
qed

lemma Game_tick_ended: "g_phase g = ended \<Longrightarrow> Game_tick dt g = Some g"
  by (simp add: Game_tick_def)

lemma update_loop_is_ticks:
  assumes "g_accumulator g = real n * Game_FIXED_DT"
  shows "map_option (\<lambda>g'. g'\<lparr>g_accumulator := 0\<rparr>) (update_loop g)
         = map_option (\<lambda>g'. g'\<lparr>g_accumulator := 0\<rparr>) (Game_ticks n g)"
  using assms
proof (induction n arbitrary: g)
  case 0
  then show ?case by (simp add: Game_FIXED_DT_def)
next
  case (Suc n)
  have ge: "Game_FIXED_DT \<le> g_accumulator g"
    using Suc.prems by (simp add: Game_FIXED_DT_def)
  show ?case
  proof (cases "Game_tick Game_FIXED_DT g")
    case None
    then have "g_phase g \<noteq> ended" using Game_tick_ended[of g Game_FIXED_DT] by auto
    then show ?thesis using None ge by simp
  next
    case (Some g1)
    define g2 where "g2 = g1\<lparr>g_accumulator := g_accumulator g1 - Game_FIXED_DT\<rparr>"
    have acc: "g_accumulator g2 = real n * Game_FIXED_DT"
      using Game_tick_keeps_accumulator[OF Some] Suc.prems by (simp add: g2_def algebra_simps)
    have ph: "g_phase g2 = g_phase g1" by (simp add: g2_def)
    show ?thesis
    proof (cases "g_phase g = ended")
      case True
      then have "g1 = g" using Some Game_tick_ended[of g Game_FIXED_DT] by simp
      then show ?thesis using True Some ge by (simp add: Let_def)
    next
      case False
      show ?thesis
      proof (cases "g_phase g1 = ended")
        case True
        then show ?thesis
          using False Some ge by (simp add: Let_def Game_ticks_stopped)
      next
        case nothended: False
        have "map_option (\<lambda>g'. g'\<lparr>g_accumulator := 0\<rparr>) (update_loop g2)
            = map_option (\<lambda>g'. g'\<lparr>g_accumulator := 0\<rparr>) (Game_ticks n g2)"
          by (rule Suc.IH[OF acc])
        also have "\<dots> = map_option (\<lambda>g'. g'\<lparr>g_accumulator := 0\<rparr>) (Game_ticks n g1)"
          unfolding g2_def Game_ticks_accumulator by (simp add: option.map_comp comp_def)
        finally show ?thesis
          using False nothended Some ge ph by (simp add: Let_def g2_def)
      qed
    qed
  qed
qed

end
